(* ===== verification/Prelude.thy ===== *)
theory Prelude
  imports Main "HOL-Library.AList" "HOL-Library.Multiset"
begin

text \<open>
  Shared vocabulary of the prsnt development: the types that name the program's
  quantities (milliseconds of \<open>Date.now()\<close>, identities of JavaScript objects), the
  collections of rewrite rules the component theories fill in, and generic facts on
  association lists with distinct keys, which are the model of every keyed store of
  the program.
\<close>

section \<open>Names of the model's types\<close>

text \<open>\<open>Date.now()\<close> in milliseconds; the clock of the model never runs backwards.\<close>
type_synonym time = nat

text \<open>The identity of a JavaScript object on the heap (what \<open>===\<close> compares).\<close>
type_synonym ref = nat

text \<open>An association list whose keys are pairwise distinct: a dictionary.\<close>
abbreviation keys_distinct :: "('k \<times> 'v) list \<Rightarrow> bool" where
  "keys_distinct xs \<equiv> distinct (map fst xs)"

section \<open>Rule collections\<close>

text \<open>
  \<open>store_simps\<close> collects the characteristic equations of the store operations,
  \<open>inv_intros\<close> the invariant-preservation facts of the registry, so that component
  proofs say \<open>simp add: store_simps\<close> and \<open>auto intro: inv_intros\<close>.
\<close>

named_theorems store_simps "characteristic equations of the keyed stores"
named_theorems inv_intros "preservation of the registry invariant"

section \<open>Association lists with distinct keys\<close>

lemma keys_distinct_delete [simp]:
  "keys_distinct xs \<Longrightarrow> keys_distinct (AList.delete k xs)"
  by (simp add: AList.delete_keys distinct_removeAll)

lemma keys_distinct_cons_delete [simp]:
  "keys_distinct xs \<Longrightarrow> keys_distinct ((k, v) # AList.delete k xs)"
  by (simp add: AList.delete_keys distinct_removeAll AList.delete_notin_dom)

lemma map_of_delete_upd [simp]:
  "(map_of (AList.delete k xs))(k \<mapsto> v) = (map_of xs)(k \<mapsto> v)"
  by (simp add: AList.delete_conv')

lemma map_of_SomeD_distinct:
  "keys_distinct xs \<Longrightarrow> map_of xs k = Some v \<longleftrightarrow> (k, v) \<in> set xs"
  by (rule iffI) (auto dest: map_of_SomeD intro: map_of_is_SomeI)

lemma set_delete_sub: "set (AList.delete k xs) \<subseteq> set xs"
  by (auto simp: AList.delete_eq)

lemma in_set_delete [simp]:
  "(a, b) \<in> set (AList.delete k xs) \<longleftrightarrow> (a, b) \<in> set xs \<and> a \<noteq> k"
  by (auto simp: AList.delete_eq)

lemma delete_distinct_middle:
  "keys_distinct (xs @ (k, e) # ys) \<Longrightarrow> AList.delete k (xs @ (k, e) # ys) = xs @ ys"
proof -
  assume d: "keys_distinct (xs @ (k, e) # ys)"
  have "\<forall>p \<in> set xs. k \<noteq> fst p" "\<forall>p \<in> set ys. k \<noteq> fst p" using d by force+
  then show ?thesis by (simp add: AList.delete_eq filter_id_conv case_prod_unfold)
qed

lemma map_of_distinct_middle:
  "keys_distinct (xs @ (k, e) # ys) \<Longrightarrow> map_of (xs @ (k, e) # ys) k = Some e"
proof -
  assume "keys_distinct (xs @ (k, e) # ys)"
  then have "map_of xs k = None" by (auto simp: map_of_eq_None_iff)
  then show ?thesis by (simp add: map_of_append map_add_def)
qed

section \<open>Filtering maps\<close>

lemma map_filter_id_map:
  "List.map_filter f (List.map_filter id (map g ks)) = List.map_filter (\<lambda>k. Option.bind (g k) f) ks"
  by (induction ks) (auto simp: List.map_filter_def split: option.splits)

lemma map_filter_id_Some: "List.map_filter id (map (\<lambda>(k, v, w). Some v) xs) = map (\<lambda>(k, v, w). v) xs"
  by (induction xs) (auto simp: List.map_filter_def)

lemma set_map_filter:
  "set (List.map_filter f xs) = {y. \<exists>x \<in> set xs. f x = Some y}"
  by (induction xs) (auto simp: List.map_filter_def split: option.splits)

lemma filter_eq_distinct:
  "distinct ks \<Longrightarrow> filter (\<lambda>k. k = u) ks = (if u \<in> set ks then [u] else [])"
  by (induction ks) auto

lemma filter_key_map_filter:
  assumes "\<And>k x. k \<in> set ks \<Longrightarrow> f k = Some x \<Longrightarrow> g x = k"
  shows "filter (\<lambda>x. g x = u) (List.map_filter f ks) = List.map_filter f (filter (\<lambda>k. k = u) ks)"
  using assms by (induction ks) (auto simp: List.map_filter_simps split: option.splits)

lemma map_key_map_filter:
  assumes "\<And>k x. f k = Some x \<Longrightarrow> g x = k"
  shows "map g (List.map_filter f ks) = filter (\<lambda>k. f k \<noteq> None) ks"
  using assms by (induction ks) (auto simp: List.map_filter_simps split: option.splits)

section \<open>Options\<close>

lemma option_case_pair_eq_Some:
  "(case x of None \<Rightarrow> None | Some (a, b) \<Rightarrow> f a b) = Some y \<longleftrightarrow>
     (\<exists>a b. x = Some (a, b) \<and> f a b = Some y)"
  by (cases x) auto

end
