(* ===== verification/Lru_Store.thy ===== *)
theory Lru_Store
  imports Prelude
begin

text \<open>
  The RegistryStore: \<open>src/index.js\<close> keeps its servers in an \<open>lru-cache\<close> instance
  built with \<open>new LRU({maxAge: serverExpiry})\<close> (lines 15--17) and no maximum size.
  The library is not part of the repository; it is modelled from the code of its
  versions 4 to 6, for the one option the program passes. Entries are kept most
  recently \<^emph>\<open>used\<close> first. \<open>get\<close> of an absent key misses; \<open>get\<close> of a stale entry
  deletes it and misses; \<open>get\<close> of a fresh entry returns it and moves it to the front.
  \<open>set\<close> of a new key puts the entry, stamped with the current time, at the front;
  \<open>set\<close> of a held key overwrites value and stamp in place and then calls \<open>get\<close> on
  the key. \<open>keys()\<close> lists the keys front first.

  An entry stamped \<open>w\<close> is stale at \<open>now\<close> when \<open>maxAge\<close> is not 0 and
  \<open>now - w > maxAge\<close>: 0 disables expiry, and a negative \<open>maxAge\<close> makes every entry
  stale. \<open>maxAge\<close> is therefore an integer. \<open>Infinity\<close> behaves as 0 (no
  difference exceeds it) and \<open>-Infinity\<close> as any negative value, so an integer
  stands for every number the program can pass. With \<open>maxAge\<close> 0 the library stamps
  entries with 0 instead of the time; only the staleness test reads the stamp, and it
  is off then, so the model keeps the time. Reads never move the stamp.

  The specification's store (section 4.1) is the timed map of \<open>spec_view\<close>: a record
  written at \<open>w\<close> is seen before \<open>w + maxAge\<close> and missed from then on. The lemmas show
  that \<open>lru_set\<close> and \<open>lru_get\<close> refine map update and lookup on the view
  \<open>lru_abs\<close>, that keys stay distinct, and that with a positive \<open>maxAge\<close> the library
  answers every time-ordered run of writes and reads as the timed map does, as long
  as no read falls exactly \<open>maxAge\<close> after a write. At that instant the library
  still answers the record.
\<close>

section \<open>State and operations\<close>

record ('k, 'v) lru =
  lru_max_age :: int
  lru_entries :: "('k \<times> ('v \<times> time)) list"

definition lru_new :: "int \<Rightarrow> ('k, 'v) lru" where
  "lru_new max_age = \<lparr>lru_max_age = max_age, lru_entries = []\<rparr>"

definition lru_is_stale :: "('k, 'v) lru \<Rightarrow> time \<Rightarrow> time \<Rightarrow> bool" where
  "lru_is_stale c now written \<longleftrightarrow> lru_max_age c \<noteq> 0 \<and> int written + lru_max_age c < int now"

definition lru_del :: "'k \<Rightarrow> ('k, 'v) lru \<Rightarrow> ('k, 'v) lru" where
  "lru_del k c = c\<lparr>lru_entries := AList.delete k (lru_entries c)\<rparr>"

definition lru_get :: "'k \<Rightarrow> time \<Rightarrow> ('k, 'v) lru \<Rightarrow> 'v option \<times> ('k, 'v) lru" where
  "lru_get k now c =
     (case map_of (lru_entries c) k of
        None \<Rightarrow> (None, c)
      | Some (v, written) \<Rightarrow>
          if lru_is_stale c now written then (None, lru_del k c)
          else (Some v, c\<lparr>lru_entries := (k, (v, written)) # AList.delete k (lru_entries c)\<rparr>))"

definition lru_set :: "'k \<Rightarrow> 'v \<Rightarrow> time \<Rightarrow> ('k, 'v) lru \<Rightarrow> ('k, 'v) lru" where
  "lru_set k v now c =
     (case map_of (lru_entries c) k of
        None \<Rightarrow> c\<lparr>lru_entries := (k, (v, now)) # lru_entries c\<rparr>
      | Some _ \<Rightarrow>
          snd (lru_get k now
                 (c\<lparr>lru_entries :=
                      map (\<lambda>(k', e). if k' = k then (k', (v, now)) else (k', e)) (lru_entries c)\<rparr>)))"

definition lru_keys :: "('k, 'v) lru \<Rightarrow> 'k list" where
  "lru_keys c = map fst (lru_entries c)"

section \<open>Abstract view and well-formedness\<close>

definition lru_abs :: "time \<Rightarrow> ('k, 'v) lru \<Rightarrow> 'k \<rightharpoonup> 'v" where
  "lru_abs now c k =
     (case map_of (lru_entries c) k of
        None \<Rightarrow> None
      | Some (v, written) \<Rightarrow> if lru_is_stale c now written then None else Some v)"

definition lru_wf :: "('k, 'v) lru \<Rightarrow> bool" where
  "lru_wf c \<longleftrightarrow> distinct (lru_keys c)"

definition lru_written :: "('k, 'v) lru \<Rightarrow> 'k \<Rightarrow> time option" where
  "lru_written c k = map_option snd (map_of (lru_entries c) k)"

definition lru_fresh :: "time \<Rightarrow> ('k, 'v) lru \<Rightarrow> bool" where
  "lru_fresh now c \<longleftrightarrow> list_all (\<lambda>(k, v, w). \<not> lru_is_stale c now w) (lru_entries c)"

section \<open>The specification's store as a timed map\<close>

text \<open>
  A map from keys to a value and its write time; a read at \<open>t\<close> sees the value when
  \<open>t\<close> is before the write time plus \<open>maxAge\<close>, and reads change nothing. A run is a
  list of timestamped operations; it yields the result of every operation
  (\<open>None\<close> for a write).
\<close>

datatype ('k, 'v) store_op = OpSet 'k 'v | OpGet 'k

definition spec_view :: "time \<Rightarrow> time \<Rightarrow> ('k \<rightharpoonup> ('v \<times> time)) \<Rightarrow> 'k \<rightharpoonup> 'v" where
  "spec_view max_age t m k =
     (case m k of None \<Rightarrow> None | Some (v, w) \<Rightarrow> if t < w + max_age then Some v else None)"

fun spec_exec :: "time \<Rightarrow> ('k \<rightharpoonup> ('v \<times> time)) \<Rightarrow> (time \<times> ('k, 'v) store_op) list \<Rightarrow> 'v option list" where
  "spec_exec max_age m [] = []"
| "spec_exec max_age m ((t, OpSet k v) # ops) = None # spec_exec max_age (m(k \<mapsto> (v, t))) ops"
| "spec_exec max_age m ((t, OpGet k) # ops) = spec_view max_age t m k # spec_exec max_age m ops"

fun lru_exec :: "('k, 'v) lru \<Rightarrow> (time \<times> ('k, 'v) store_op) list \<Rightarrow> 'v option list" where
  "lru_exec c [] = []"
| "lru_exec c ((t, OpSet k v) # ops) = None # lru_exec (lru_set k v t c) ops"
| "lru_exec c ((t, OpGet k) # ops) =
     (case lru_get k t c of (r, c') \<Rightarrow> r # lru_exec c' ops)"

section \<open>Characteristic equations\<close>

lemma lru_get_miss [store_simps]:
  "map_of (lru_entries c) k = None \<Longrightarrow> lru_get k now c = (None, c)"
  by (simp add: lru_get_def)

lemma lru_get_stale [store_simps]:
  "map_of (lru_entries c) k = Some (v, w) \<Longrightarrow> lru_is_stale c now w \<Longrightarrow>
   lru_get k now c = (None, lru_del k c)"
  by (simp add: lru_get_def)

lemma lru_get_fresh [store_simps]:
  "map_of (lru_entries c) k = Some (v, w) \<Longrightarrow> \<not> lru_is_stale c now w \<Longrightarrow>
   lru_get k now c = (Some v, c\<lparr>lru_entries := (k, (v, w)) # AList.delete k (lru_entries c)\<rparr>)"
  by (simp add: lru_get_def)

lemma lru_is_stale_entries [simp]: "lru_is_stale (c\<lparr>lru_entries := es\<rparr>) t w = lru_is_stale c t w"
  by (simp add: lru_is_stale_def)

lemma map_of_overwrite:
  "map_of (map (\<lambda>(k', e). if k' = k then (k', x) else (k', e)) xs) k =
     (if map_of xs k = None then None else Some x)"
  by (induction xs) auto

lemma delete_overwrite:
  "AList.delete k (map (\<lambda>(k', e). if k' = k then (k', x) else (k', e)) xs) = AList.delete k xs"
  by (induction xs) (auto split: if_splits)

text \<open>What \<open>set\<close> leaves: the entry at the front, except that a held key is dropped
  at once when \<open>maxAge\<close> is negative (its re-read finds it stale).\<close>

lemma lru_set_eq:
  "lru_set k v now c =
     (if map_of (lru_entries c) k \<noteq> None \<and> lru_max_age c < 0 then lru_del k c
      else c\<lparr>lru_entries := (k, (v, now)) # AList.delete k (lru_entries c)\<rparr>)"
proof (cases "map_of (lru_entries c) k")
  case None
  then have "AList.delete k (lru_entries c) = lru_entries c"
    by (simp add: AList.delete_id map_of_eq_None_iff)
  with None show ?thesis by (simp add: lru_set_def)
next
  case (Some e)
  then show ?thesis
    by (simp add: lru_set_def lru_get_def lru_del_def lru_is_stale_def map_of_overwrite
        delete_overwrite)
qed

lemma lru_max_age_set [simp]: "lru_max_age (lru_set k v now c) = lru_max_age c"
  by (simp add: lru_set_eq lru_del_def)

lemma lru_max_age_del [simp]: "lru_max_age (lru_del k c) = lru_max_age c"
  by (simp add: lru_del_def)

lemma lru_is_stale_set [simp]: "lru_is_stale (lru_set k v now c) t w = lru_is_stale c t w"
  by (simp add: lru_is_stale_def)

lemma lru_is_stale_del [simp]: "lru_is_stale (lru_del k c) t w = lru_is_stale c t w"
  by (simp add: lru_is_stale_def)

lemma lru_max_age_get [simp]: "lru_max_age (snd (lru_get k now c)) = lru_max_age c"
  by (auto simp: lru_get_def split: option.splits)

lemma lru_is_stale_get [simp]: "lru_is_stale (snd (lru_get k now c)) t w = lru_is_stale c t w"
  by (simp add: lru_is_stale_def)

lemma map_of_lru_del [store_simps]:
  "map_of (lru_entries (lru_del k c)) = (map_of (lru_entries c))(k := None)"
  by (simp add: lru_del_def AList.delete_conv')

lemma map_of_lru_set [store_simps]:
  "0 \<le> lru_max_age c \<Longrightarrow>
   map_of (lru_entries (lru_set k v now c)) = (map_of (lru_entries c))(k \<mapsto> (v, now))"
  by (simp add: lru_set_eq)

lemma lru_stale_mono:
  "lru_is_stale c t w \<Longrightarrow> t \<le> t' \<Longrightarrow> lru_is_stale c t' w"
  by (simp add: lru_is_stale_def)

lemma lru_stale_at_write: "lru_is_stale c now now \<longleftrightarrow> lru_max_age c < 0"
  by (auto simp: lru_is_stale_def)

lemma lru_never_stale_iff: "(\<forall>t w. \<not> lru_is_stale c t w) \<longleftrightarrow> lru_max_age c = 0"
proof
  assume never: "\<forall>t w. \<not> lru_is_stale c t w"
  show "lru_max_age c = 0"
  proof (rule ccontr)
    assume "lru_max_age c \<noteq> 0"
    then have "lru_is_stale c (nat (\<bar>lru_max_age c\<bar> + 1)) 0" by (simp add: lru_is_stale_def)
    with never show False by blast
  qed
qed (simp add: lru_is_stale_def)

lemma lru_always_stale_iff: "(\<forall>t w. w \<le> t \<longrightarrow> lru_is_stale c t w) \<longleftrightarrow> lru_max_age c < 0"
proof
  assume "\<forall>t w. w \<le> t \<longrightarrow> lru_is_stale c t w"
  then have "lru_is_stale c 0 0" by blast
  then show "lru_max_age c < 0" by (simp add: lru_stale_at_write)
qed (auto simp: lru_is_stale_def)

section \<open>Well-formedness is preserved\<close>

lemma lru_wf_new: "lru_wf (lru_new e)"
  by (simp add: lru_wf_def lru_new_def lru_keys_def)

lemma lru_wf_del: "lru_wf c \<Longrightarrow> lru_wf (lru_del k c)"
  by (simp add: lru_wf_def lru_del_def lru_keys_def)

lemma lru_wf_set: "lru_wf c \<Longrightarrow> lru_wf (lru_set k v now c)"
  by (simp add: lru_set_eq lru_wf_def lru_del_def lru_keys_def AList.delete_keys distinct_removeAll)

lemma lru_wf_get: "lru_wf c \<Longrightarrow> lru_wf (snd (lru_get k now c))"
  by (auto simp: lru_get_def lru_wf_def lru_del_def lru_keys_def AList.delete_keys distinct_removeAll
      split: option.splits)

section \<open>Refinement of a partial map\<close>

lemma lru_abs_set_same:
  "now \<le> t \<Longrightarrow>
   lru_abs t (lru_set k v now c) k = (if lru_is_stale c t now then None else Some v)"
  by (auto simp: lru_set_eq lru_abs_def map_of_lru_del lru_is_stale_def)

lemma lru_abs_set_other:
  "k' \<noteq> k \<Longrightarrow> lru_abs t (lru_set k v now c) k' = lru_abs t c k'"
  by (simp add: lru_set_eq lru_abs_def map_of_lru_del split: option.split)

lemma lru_abs_set:
  "0 \<le> lru_max_age c \<Longrightarrow> lru_abs now (lru_set k v now c) = (lru_abs now c)(k \<mapsto> v)"
  by (rule ext) (simp add: lru_abs_set_same lru_abs_set_other lru_stale_at_write)

lemma lru_get_result: "fst (lru_get k now c) = lru_abs now c k"
  by (auto simp: lru_get_def lru_abs_def split: option.splits)

lemma map_of_lru_get:
  "map_of (lru_entries (snd (lru_get k now c))) =
     (if lru_abs now c k = None then (map_of (lru_entries c))(k := None) else map_of (lru_entries c))"
  by (rule ext)
    (auto simp: lru_get_def lru_abs_def map_of_lru_del AList.delete_conv' split: option.splits)

lemma lru_abs_get_later:
  "now \<le> t \<Longrightarrow> lru_abs t (snd (lru_get k now c)) = lru_abs t c"
  by (rule ext)
    (auto simp: lru_abs_def map_of_lru_get lru_is_stale_def split: option.splits if_splits)

lemma lru_abs_get: "lru_abs now (snd (lru_get k now c)) = lru_abs now c"
  by (simp add: lru_abs_get_later)

lemma lru_abs_get_other:
  "k' \<noteq> k \<Longrightarrow> lru_abs t (snd (lru_get k now c)) k' = lru_abs t c k'"
  by (simp add: lru_abs_def map_of_lru_get split: option.split)

lemma lru_abs_later:
  "lru_abs t' c k = Some v \<Longrightarrow> t \<le> t' \<Longrightarrow> lru_abs t c k = Some v"
  by (auto simp: lru_abs_def lru_is_stale_def split: option.splits if_splits)

lemma set_lru_entries_set:
  "set (lru_entries (lru_set k v now c)) \<subseteq> insert (k, (v, now)) (set (AList.delete k (lru_entries c)))"
  by (auto simp: lru_set_eq lru_del_def)

lemma lru_entries_get_sub: "set (lru_entries (snd (lru_get k now c))) \<subseteq> set (lru_entries c)"
  by (auto simp: lru_get_def lru_del_def split: option.splits dest: map_of_SomeD)

lemma lru_absD:
  "lru_abs t c k = Some v \<Longrightarrow> \<exists>w. map_of (lru_entries c) k = Some (v, w) \<and> \<not> lru_is_stale c t w"
  by (auto simp: lru_abs_def split: option.splits if_splits)

lemma lru_written_get:
  "lru_written (snd (lru_get k now c)) k' = Some w \<Longrightarrow> lru_written c k' = Some w"
  by (auto simp: lru_written_def map_of_lru_get split: if_splits)

section \<open>Reading every key in the order of \<open>keys()\<close>\<close>

text \<open>Each fresh entry read moves to the front: after reading the keys of \<open>xb\<close> in
  order, the entries read stand in reverse order before the others.\<close>

fun lru_get_all :: "time \<Rightarrow> 'k list \<Rightarrow> ('k, 'v) lru \<Rightarrow> 'v option list \<times> ('k, 'v) lru" where
  "lru_get_all now [] c = ([], c)"
| "lru_get_all now (k # ks) c =
     (case lru_get k now c of (v, c1) \<Rightarrow> (case lru_get_all now ks c1 of (vs, c2) \<Rightarrow> (v # vs, c2)))"

lemma lru_max_age_get_all [simp]: "lru_max_age (snd (lru_get_all now ks c)) = lru_max_age c"
  by (induction ks arbitrary: c) (simp_all add: prod.case_eq_if)

lemma lru_get_all_moves:
  assumes "lru_entries c = rev xa @ xb" and "keys_distinct (rev xa @ xb)" and "lru_fresh now c"
  shows "fst (lru_get_all now (map fst xb) c) = map (\<lambda>(k, v, w). Some v) xb \<and>
         snd (lru_get_all now (map fst xb) c) = c\<lparr>lru_entries := rev (xa @ xb)\<rparr>"
  using assms
proof (induction xb arbitrary: xa c)
  case Nil
  then show ?case by simp
next
  case (Cons x xb)
  obtain k v w where x: "x = (k, (v, w))" by (cases x) auto
  have m: "map_of (lru_entries c) k = Some (v, w)"
    using Cons.prems(1,2) x map_of_distinct_middle[of "rev xa" k "(v, w)" xb] by simp
  have "(k, v, w) \<in> set (lru_entries c)" using Cons.prems(1) x by simp
  then have fresh: "\<not> lru_is_stale c now w"
    using Cons.prems(3) by (fastforce simp: lru_fresh_def list_all_iff)
  let ?c1 = "c\<lparr>lru_entries := (k, (v, w)) # (rev xa @ xb)\<rparr>"
  have get: "lru_get k now c = (Some v, ?c1)"
    using m fresh Cons.prems(1,2) x delete_distinct_middle[of "rev xa" k "(v, w)" xb]
    by (simp add: lru_get_fresh)
  have "lru_entries ?c1 = rev (xa @ [x]) @ xb" using x by simp
  moreover have "keys_distinct (rev (xa @ [x]) @ xb)" using Cons.prems(2) by auto
  moreover have "lru_fresh now ?c1"
    using Cons.prems(1,3) fresh by (auto simp: lru_fresh_def list_all_iff lru_is_stale_def)
  ultimately have "fst (lru_get_all now (map fst xb) ?c1) = map (\<lambda>(k, v, w). Some v) xb \<and>
      snd (lru_get_all now (map fst xb) ?c1) = ?c1\<lparr>lru_entries := rev (xa @ [x] @ xb)\<rparr>"
    using Cons.IH[where xa = "xa @ [x]" and c = ?c1] by simp
  with get x show ?case by (simp add: prod.case_eq_if)
qed

section \<open>The library against the timed map\<close>

lemma lru_abs_set_at:
  "now \<le> t \<Longrightarrow>
   lru_abs t (lru_set k v now c) k' =
     (if k' = k then (if lru_is_stale c t now then None else Some v) else lru_abs t c k')"
  by (simp add: lru_abs_set_same lru_abs_set_other)

lemma lru_exec_sim:
  assumes "\<forall>t' \<in> fst ` set ops. lru_abs t' c = spec_view max_age t' m"
    and "sorted (map fst ops)" and "lru_max_age c = int max_age" and "0 < max_age"
    and "\<forall>t \<in> fst ` set ops. \<forall>w \<in> fst ` set ops. t \<noteq> w + max_age"
  shows "lru_exec c ops = spec_exec max_age m ops"
  using assms
proof (induction ops arbitrary: c m)
  case Nil
  then show ?case by simp
next
  case (Cons op ops)
  obtain t1 o1 where op: "op = (t1, o1)" by fastforce
  have sorted: "sorted (map fst ops)" and later: "\<forall>t \<in> fst ` set ops. t1 \<le> t"
    using Cons.prems(2) op by auto
  have bound: "\<forall>t \<in> fst ` set ops. \<forall>w \<in> fst ` set ops. t \<noteq> w + max_age"
    using Cons.prems(5) by auto
  show ?case
  proof (cases o1)
    case (OpSet k v)
    have "\<forall>t' \<in> fst ` set ops. lru_abs t' (lru_set k v t1 c) = spec_view max_age t' (m(k \<mapsto> (v, t1)))"
    proof
      fix t' assume t': "t' \<in> fst ` set ops"
      then have "t' \<noteq> t1 + max_age" "t1 \<le> t'" using Cons.prems(5) op later by force+
      with t' Cons.prems(1,3,4) show "lru_abs t' (lru_set k v t1 c) = spec_view max_age t' (m(k \<mapsto> (v, t1)))"
        by (auto simp: fun_eq_iff lru_abs_set_at spec_view_def lru_is_stale_def)
    qed
    then have "lru_exec (lru_set k v t1 c) ops = spec_exec max_age (m(k \<mapsto> (v, t1))) ops"
      using Cons.IH[of "lru_set k v t1 c" "m(k \<mapsto> (v, t1))", unfolded lru_max_age_set] sorted bound
        Cons.prems(3,4) by blast
    with op OpSet show ?thesis by simp
  next
    case (OpGet k)
    have res: "fst (lru_get k t1 c) = spec_view max_age t1 m k"
      using Cons.prems(1) op by (simp add: lru_get_result)
    have "\<forall>t' \<in> fst ` set ops. lru_abs t' (snd (lru_get k t1 c)) = spec_view max_age t' m"
      using Cons.prems(1) later by (simp add: lru_abs_get_later)
    then have "lru_exec (snd (lru_get k t1 c)) ops = spec_exec max_age m ops"
      using Cons.IH[of "snd (lru_get k t1 c)" m, unfolded lru_max_age_get] sorted bound Cons.prems(3,4)
      by blast
    with op OpGet res show ?thesis by (simp add: prod.case_eq_if)
  qed
qed

text \<open>
  C14. With a positive \<open>maxAge\<close>, the store answers every time-ordered run of writes
  and reads as the specification's timed map does, provided no read falls exactly
  \<open>maxAge\<close> after a write: recency order and the \<open>>\<close> of the staleness test are
  invisible there.
\<close>

theorem lru_exec_agrees_off_boundary:
  assumes "sorted (map fst ops)" and "0 < max_age"
    and "\<forall>t \<in> fst ` set ops. \<forall>w \<in> fst ` set ops. t \<noteq> w + max_age"
  shows "lru_exec (lru_new (int max_age)) ops = spec_exec max_age Map.empty ops"
proof -
  have "\<forall>t' \<in> fst ` set ops. lru_abs t' (lru_new (int max_age) :: ('a, 'b) lru) = spec_view max_age t' Map.empty"
    by (simp add: fun_eq_iff lru_new_def lru_abs_def spec_view_def)
  moreover have "lru_max_age (lru_new (int max_age) :: ('a, 'b) lru) = int max_age"
    by (simp add: lru_new_def)
  ultimately show ?thesis using lru_exec_sim assms by blast
qed

theorem lru_exec_agrees_off_boundary_witness:
  "lru_exec (lru_new (int 10)) [(0, OpSet ''k'' (1::nat)), (9, OpGet ''k''), (11, OpGet ''k'')] =
   spec_exec 10 Map.empty [(0, OpSet ''k'' (1::nat)), (9, OpGet ''k''), (11, OpGet ''k'')]"
  by (rule lru_exec_agrees_off_boundary) auto

end
