(* ===== verification/Payload.thy ===== *)
theory Payload
  imports Prelude
begin

text \<open>
  The announce payload (AnnounceCoordinator, validation half): the parsed JSON body of
  \<open>POST /prsnt/announce\<close>, the validators of \<open>src/index.js\<close> lines 62--64, the
  guard of lines 66--73, the destructuring of line 75 and the canonical key
  \<open>protocol + '://' + address + ':' + port\<close> of line 79. The lemmas show that the
  address validator accepts exactly the language of its regular expression, that
  the key renders the port as JavaScript's \<open>String(port)\<close> does, and that the key
  determines the endpoint it was built from.
\<close>

section \<open>JSON values\<close>

text \<open>
  The body as \<open>bodyParser.json()\<close> delivers it. A number \<open>JNum n\<close> is the Number
  \<open>JSON.parse\<close> produced, when that is an integer: the model does not represent
  fractional numbers. \<open>JSON.parse\<close> rounds a long literal to a double, so integers
  no double holds never arrive; the model admits them as inputs, which only widens
  what the theorems quantify over. An object keeps its members in source order, and
  a property read sees the last occurrence of a duplicated member, as \<open>JSON.parse\<close>
  does.
\<close>

datatype json =
    JNull
  | JBool bool
  | JNum int
  | JStr string
  | JArr "json list"
  | JObj "(string \<times> json) list"

text \<open>\<open>j.k\<close>: a member of an object; \<open>undefined\<close> (\<open>None\<close>) for anything else.\<close>

fun js_prop :: "json \<Rightarrow> string \<Rightarrow> json option" where
  "js_prop (JObj kvs) k = map_of (rev kvs) k"
| "js_prop _ k = None"

text \<open>\<open>typeof j == 'object' && j !== null\<close>: objects and arrays.\<close>

fun js_is_object :: "json \<Rightarrow> bool" where
  "js_is_object (JObj _) = True"
| "js_is_object (JArr _) = True"
| "js_is_object _ = False"

fun js_is_string :: "json option \<Rightarrow> bool" where
  "js_is_string (Some (JStr _)) = True"
| "js_is_string _ = False"

fun js_is_number :: "json option \<Rightarrow> bool" where
  "js_is_number (Some (JNum _)) = True"
| "js_is_number _ = False"

fun js_string_of :: "json option \<Rightarrow> string" where
  "js_string_of (Some (JStr s)) = s"
| "js_string_of _ = []"

fun js_number_of :: "json option \<Rightarrow> int" where
  "js_number_of (Some (JNum n)) = n"
| "js_number_of _ = 0"

section \<open>Validators (lines 62--64)\<close>

text \<open>\<open>/^https?$/\<close>\<close>

definition is_valid_protocol :: "string \<Rightarrow> bool" where
  "is_valid_protocol s \<longleftrightarrow> s = ''http'' \<or> s = ''https''"

definition is_digit :: "char \<Rightarrow> bool" where
  "is_digit c \<longleftrightarrow> c \<in> set ''0123456789''"

text \<open>
  \<open>/^[0-9]+\.[0-9]+\.[0-9]+\.[0-9]+$/\<close> as the automaton that runs it: \<open>dots\<close> is the
  number of dots read, \<open>nonempty\<close> whether the current digit group has a digit.
\<close>

fun address_dfa :: "nat \<Rightarrow> bool \<Rightarrow> string \<Rightarrow> bool" where
  "address_dfa dots nonempty [] \<longleftrightarrow> dots = 3 \<and> nonempty"
| "address_dfa dots nonempty (c # cs) \<longleftrightarrow>
     (if is_digit c then address_dfa dots True cs
      else if c = CHR ''.'' \<and> nonempty \<and> dots < 3 then address_dfa (Suc dots) False cs
      else False)"

definition is_valid_address :: "string \<Rightarrow> bool" where
  "is_valid_address s = address_dfa 0 False s"

definition is_valid_visibility :: "string \<Rightarrow> bool" where
  "is_valid_visibility s \<longleftrightarrow> s = ''public'' \<or> s = ''private''"

section \<open>The guard of the announce handler (lines 66--73)\<close>

definition valid_payload :: "json \<Rightarrow> bool" where
  "valid_payload j \<longleftrightarrow>
     js_is_object j \<and>
     js_is_string (js_prop j ''name'') \<and>
     js_is_string (js_prop j ''protocol'') \<and>
       is_valid_protocol (js_string_of (js_prop j ''protocol'')) \<and>
     js_is_string (js_prop j ''address'') \<and>
       is_valid_address (js_string_of (js_prop j ''address'')) \<and>
     js_is_number (js_prop j ''port'') \<and>
     js_is_string (js_prop j ''visibility'') \<and>
       is_valid_visibility (js_string_of (js_prop j ''visibility'')) \<and>
     (case js_prop j ''users'' of
        Some (JArr us) \<Rightarrow> list_all (\<lambda>u. js_is_string (Some u)) us
      | _ \<Rightarrow> False)"

section \<open>The accepted announcement (line 75)\<close>

datatype visibility = Public | Private

record announcement =
  a_name :: string
  a_protocol :: string
  a_address :: string
  a_port :: int
  a_users :: "string list"
  a_visibility :: visibility

definition users_of :: "json \<Rightarrow> string list" where
  "users_of j =
     (case js_prop j ''users'' of Some (JArr us) \<Rightarrow> map (\<lambda>u. js_string_of (Some u)) us | _ \<Rightarrow> [])"

text \<open>
  \<open>None\<close> is the \<open>else\<close> branch of line 132 (a 400 response); otherwise the
  destructured fields of line 75. Only \<open>'public'\<close> compares equal to \<open>'public'\<close>
  (line 78); the guard leaves \<open>'private'\<close> as the other value.
\<close>

definition decode_announce :: "json \<Rightarrow> announcement option" where
  "decode_announce j =
     (if valid_payload j then
        Some \<lparr>a_name = js_string_of (js_prop j ''name''),
              a_protocol = js_string_of (js_prop j ''protocol''),
              a_address = js_string_of (js_prop j ''address''),
              a_port = js_number_of (js_prop j ''port''),
              a_users = users_of j,
              a_visibility =
                (if js_string_of (js_prop j ''visibility'') = ''public'' then Public else Private)\<rparr>
      else None)"

section \<open>The canonical key (line 79)\<close>

definition digit_char :: "nat \<Rightarrow> char" where
  "digit_char d = ''0123456789'' ! d"

fun nat_digits :: "nat \<Rightarrow> string" where
  "nat_digits n = (if n < 10 then [digit_char n] else nat_digits (n div 10) @ [digit_char (n mod 10)])"

declare nat_digits.simps [simp del]

text \<open>\<open>String(port)\<close> for an integral number: optional minus sign, then decimal digits.\<close>

definition js_int_str :: "int \<Rightarrow> string" where
  "js_int_str i = (if i < 0 then CHR ''-'' # nat_digits (nat (- i)) else nat_digits (nat i))"

definition make_url :: "string \<Rightarrow> string \<Rightarrow> int \<Rightarrow> string" where
  "make_url protocol address port = protocol @ ''://'' @ address @ '':'' @ js_int_str port"

definition url_of :: "announcement \<Rightarrow> string" where
  "url_of a = make_url (a_protocol a) (a_address a) (a_port a)"

text \<open>The announcement of the specification's concrete scenario (section 8).\<close>

definition example_payload :: json where
  "example_payload =
     JObj [(''name'', JStr ''a''), (''protocol'', JStr ''http''), (''address'', JStr ''1.2.3.4''),
           (''port'', JNum 80), (''visibility'', JStr ''public''), (''users'', JArr [JStr ''x''])]"

text \<open>A second one, for another endpoint.\<close>

definition example_payload2 :: json where
  "example_payload2 =
     JObj [(''name'', JStr ''b''), (''protocol'', JStr ''http''), (''address'', JStr ''1.2.3.5''),
           (''port'', JNum 80), (''visibility'', JStr ''public''), (''users'', JArr [])]"

section \<open>Reading a key back\<close>

text \<open>
  Specification-side functions, not code of the program: the language of the address
  regular expression, and a reader of keys that recovers the endpoint from a key.
\<close>

definition digit_group :: "string \<Rightarrow> bool" where
  "digit_group g \<longleftrightarrow> g \<noteq> [] \<and> list_all is_digit g"

definition digit_value :: "char \<Rightarrow> nat" where
  "digit_value c = of_char c - 48"

definition parse_nat :: "string \<Rightarrow> nat" where
  "parse_nat s = foldl (\<lambda>acc c. 10 * acc + digit_value c) 0 s"

definition parse_int :: "string \<Rightarrow> int option" where
  "parse_int s =
     (case s of
        [] \<Rightarrow> None
      | c # ds \<Rightarrow>
          if c = CHR ''-'' then
            (if ds \<noteq> [] \<and> list_all is_digit ds then Some (- int (parse_nat ds)) else None)
          else if list_all is_digit s then Some (int (parse_nat s)) else None)"

definition split_colon :: "string \<Rightarrow> string \<times> string" where
  "split_colon s = (takeWhile (\<lambda>c. c \<noteq> CHR '':'') s, dropWhile (\<lambda>c. c \<noteq> CHR '':'') s)"

definition parse_url :: "string \<Rightarrow> (string \<times> string \<times> int) option" where
  "parse_url u =
     (case split_colon u of
        (p, c1 # c2 # c3 # r) \<Rightarrow>
          if c1 = CHR '':'' \<and> c2 = CHR ''/'' \<and> c3 = CHR ''/'' then
            (case split_colon r of
               (a, _ # ps) \<Rightarrow> map_option (\<lambda>n. (p, a, n)) (parse_int ps)
             | _ \<Rightarrow> None)
          else None
      | _ \<Rightarrow> None)"

section \<open>The address validator accepts the language of its regular expression\<close>

lemma dot_not_digit [simp]: "\<not> is_digit CHR ''.''"
  by (simp add: is_digit_def)

lemma address_dfa_iff:
  "address_dfa k ne s \<longleftrightarrow> k \<le> 3 \<and>
     (\<exists>g gs. s = g @ concat (map (\<lambda>x. CHR ''.'' # x) gs) \<and> list_all is_digit g \<and>
        (ne \<or> g \<noteq> []) \<and> length gs = 3 - k \<and> list_all digit_group gs)"
proof (induction s arbitrary: k ne)
  case Nil
  show ?case
  proof
    assume "address_dfa k ne []"
    then show "k \<le> 3 \<and> (\<exists>g gs. [] = g @ concat (map (\<lambda>x. CHR ''.'' # x) gs) \<and> list_all is_digit g \<and>
        (ne \<or> g \<noteq> []) \<and> length gs = 3 - k \<and> list_all digit_group gs)"
      by auto
  next
    assume "k \<le> 3 \<and> (\<exists>g gs. [] = g @ concat (map (\<lambda>x. CHR ''.'' # x) gs) \<and> list_all is_digit g \<and>
        (ne \<or> g \<noteq> []) \<and> length gs = 3 - k \<and> list_all digit_group gs)"
    then show "address_dfa k ne []" by auto
  qed
next
  case (Cons c cs)
  show ?case
  proof (cases "is_digit c")
    case True
    have "address_dfa k ne (c # cs) = address_dfa k True cs" using True by simp
    also have "\<dots> \<longleftrightarrow> k \<le> 3 \<and> (\<exists>g gs. c # cs = g @ concat (map (\<lambda>x. CHR ''.'' # x) gs) \<and> list_all is_digit g \<and>
        (ne \<or> g \<noteq> []) \<and> length gs = 3 - k \<and> list_all digit_group gs)"
      (is "_ \<longleftrightarrow> ?R")
    proof
      assume "address_dfa k True cs"
      then obtain g gs where "k \<le> 3" "cs = g @ concat (map (\<lambda>x. CHR ''.'' # x) gs)"
        "list_all is_digit g" "length gs = 3 - k" "list_all digit_group gs"
        using Cons.IH by blast
      with True show ?R by (intro conjI exI[of _ "c # g"] exI[of _ gs]) auto
    next
      assume ?R
      then obtain g gs where k: "k \<le> 3" and s: "c # cs = g @ concat (map (\<lambda>x. CHR ''.'' # x) gs)"
        and g: "list_all is_digit g" "ne \<or> g \<noteq> []" and gs: "length gs = 3 - k" "list_all digit_group gs"
        by blast
      have "g \<noteq> []"
      proof
        assume "g = []"
        with s True show False by (cases gs) auto
      qed
      then obtain g' where "g = c # g'" "cs = g' @ concat (map (\<lambda>x. CHR ''.'' # x) gs)"
        using s by (cases g) auto
      with k g gs show "address_dfa k True cs" using Cons.IH by auto
    qed
    finally show ?thesis .
  next
    case False
    show ?thesis
    proof (cases "c = CHR ''.'' \<and> ne \<and> k < 3")
      case True
      have "address_dfa k ne (c # cs) = address_dfa (Suc k) False cs" using True False by simp
      also have "\<dots> \<longleftrightarrow> k \<le> 3 \<and> (\<exists>g gs. c # cs = g @ concat (map (\<lambda>x. CHR ''.'' # x) gs) \<and> list_all is_digit g \<and>
        (ne \<or> g \<noteq> []) \<and> length gs = 3 - k \<and> list_all digit_group gs)"
        (is "_ \<longleftrightarrow> ?R")
      proof
        assume "address_dfa (Suc k) False cs"
        then obtain g gs where "Suc k \<le> 3" "cs = g @ concat (map (\<lambda>x. CHR ''.'' # x) gs)"
          "list_all is_digit g" "g \<noteq> []" "length gs = 3 - Suc k" "list_all digit_group gs"
          using Cons.IH by blast
        with True show ?R
          by (intro conjI exI[of _ "[]"] exI[of _ "g # gs"]) (auto simp: digit_group_def)
      next
        assume ?R
        then obtain g gs where s: "c # cs = g @ concat (map (\<lambda>x. CHR ''.'' # x) gs)"
          and g: "list_all is_digit g" and gs: "length gs = 3 - k" "list_all digit_group gs"
          by blast
        have "g = []" using s g False by (cases g) auto
        with s obtain x gs' where "gs = x # gs'" "cs = x @ concat (map (\<lambda>x. CHR ''.'' # x) gs')"
          by (cases gs) auto
        with True gs have "Suc k \<le> 3 \<and> (\<exists>g gs. cs = g @ concat (map (\<lambda>x. CHR ''.'' # x) gs) \<and>
          list_all is_digit g \<and> (False \<or> g \<noteq> []) \<and> length gs = 3 - Suc k \<and> list_all digit_group gs)"
          by (intro conjI exI[of _ x] exI[of _ gs']) (auto simp: digit_group_def)
        then show "address_dfa (Suc k) False cs" using Cons.IH by blast
      qed
      finally show ?thesis .
    next
      case nd: False
      have "\<not> address_dfa k ne (c # cs)" using False nd by auto
      moreover have "\<not> (\<exists>g gs. c # cs = g @ concat (map (\<lambda>x. CHR ''.'' # x) gs) \<and> list_all is_digit g \<and>
        (ne \<or> g \<noteq> []) \<and> length gs = 3 - k \<and> list_all digit_group gs)"
      proof
        assume "\<exists>g gs. c # cs = g @ concat (map (\<lambda>x. CHR ''.'' # x) gs) \<and> list_all is_digit g \<and>
          (ne \<or> g \<noteq> []) \<and> length gs = 3 - k \<and> list_all digit_group gs"
        then obtain g gs where s: "c # cs = g @ concat (map (\<lambda>x. CHR ''.'' # x) gs)"
          and g: "list_all is_digit g" "ne \<or> g \<noteq> []" and gs: "length gs = 3 - k"
          by blast
        have "g = []" using s g False by (cases g) auto
        with s g gs nd show False by (cases gs) auto
      qed
      ultimately show ?thesis by blast
    qed
  qed
qed

lemma length_3_conv: "length gs = 3 \<longleftrightarrow> (\<exists>b c d. gs = [b, c, d])"
  by (auto simp: numeral_3_eq_3 length_Suc_conv)

text \<open>
  C18. The address validator of line 63 accepts exactly the strings of four non-empty
  groups of decimal digits joined by dots, the language of its regular expression.
\<close>

theorem is_valid_address_regex:
  "is_valid_address s \<longleftrightarrow>
     (\<exists>a b c d. digit_group a \<and> digit_group b \<and> digit_group c \<and> digit_group d \<and>
        s = a @ ''.'' @ b @ ''.'' @ c @ ''.'' @ d)"
proof
  assume "is_valid_address s"
  then obtain g b c d where "s = g @ concat (map (\<lambda>x. CHR ''.'' # x) [b, c, d])"
    "list_all is_digit g" "g \<noteq> []" "list_all digit_group [b, c, d]"
    by (auto simp: is_valid_address_def address_dfa_iff length_3_conv)
  then show "\<exists>a b c d. digit_group a \<and> digit_group b \<and> digit_group c \<and> digit_group d \<and>
      s = a @ ''.'' @ b @ ''.'' @ c @ ''.'' @ d"
    by (intro exI[of _ g] exI[of _ b] exI[of _ c] exI[of _ d]) (auto simp: digit_group_def)
next
  assume "\<exists>a b c d. digit_group a \<and> digit_group b \<and> digit_group c \<and> digit_group d \<and>
      s = a @ ''.'' @ b @ ''.'' @ c @ ''.'' @ d"
  then obtain a b c d where "digit_group a" "digit_group b" "digit_group c" "digit_group d"
    "s = a @ ''.'' @ b @ ''.'' @ c @ ''.'' @ d"
    by blast
  then show "is_valid_address s"
    unfolding is_valid_address_def address_dfa_iff
    by (intro conjI exI[of _ a] exI[of _ "[b, c, d]"]) (auto simp: digit_group_def)
qed

section \<open>Rendering and reading the port\<close>

lemma digit_char_value: "d < 10 \<Longrightarrow> digit_value (digit_char d) = d"
  by (auto simp: digit_value_def digit_char_def less_Suc_eq numeral_eq_Suc)

lemma digit_char_is_digit: "d < 10 \<Longrightarrow> is_digit (digit_char d)"
  by (auto simp: is_digit_def digit_char_def less_Suc_eq numeral_eq_Suc)

lemma nat_digits_digits: "nat_digits n \<noteq> [] \<and> list_all is_digit (nat_digits n)"
proof (induction n rule: nat_digits.induct)
  case (1 n)
  show ?case
  proof (cases "n < 10")
    case True
    then show ?thesis by (simp add: nat_digits.simps[of n] digit_char_is_digit)
  next
    case False
    with "1.IH" show ?thesis by (simp add: nat_digits.simps[of n] digit_char_is_digit)
  qed
qed

lemma parse_nat_digits: "parse_nat (nat_digits n) = n"
proof (induction n rule: nat_digits.induct)
  case (1 n)
  show ?case
  proof (cases "n < 10")
    case True
    then show ?thesis by (subst nat_digits.simps) (simp add: parse_nat_def digit_char_value)
  next
    case False
    with "1.IH" have "parse_nat (nat_digits (n div 10)) = n div 10" by simp
    with False show ?thesis
      by (subst nat_digits.simps) (simp add: parse_nat_def digit_char_value)
  qed
qed

lemma minus_not_digit [simp]: "\<not> is_digit CHR ''-''"
  by (simp add: is_digit_def)

lemma colon_not_digit [simp]: "\<not> is_digit CHR '':''"
  by (simp add: is_digit_def)

lemma parse_int_js_int_str: "parse_int (js_int_str i) = Some i"
proof (cases "i < 0")
  case True
  then show ?thesis using nat_digits_digits[of "nat (- i)"]
    by (simp add: js_int_str_def parse_int_def parse_nat_digits)
next
  case False
  obtain c ds where cds: "nat_digits (nat i) = c # ds" and "list_all is_digit (c # ds)"
    using nat_digits_digits[of "nat i"] by (cases "nat_digits (nat i)") auto
  moreover have "parse_nat (c # ds) = nat i" using parse_nat_digits[of "nat i"] cds by simp
  ultimately show ?thesis using False
    by (auto simp: js_int_str_def parse_int_def)
qed

lemma split_colon_append:
  "CHR '':'' \<notin> set p \<Longrightarrow> split_colon (p @ CHR '':'' # r) = (p, CHR '':'' # r)"
  by (induction p) (auto simp: split_colon_def)

lemma parse_url_make_url:
  assumes "CHR '':'' \<notin> set p" and "CHR '':'' \<notin> set a"
  shows "parse_url (make_url p a n) = Some (p, a, n)"
proof -
  have "make_url p a n = p @ CHR '':'' # CHR ''/'' # CHR ''/'' # (a @ CHR '':'' # js_int_str n)"
    by (simp add: make_url_def)
  then show ?thesis
    using assms by (simp add: parse_url_def split_colon_append parse_int_js_int_str)
qed

lemma address_dfa_no_colon: "address_dfa k ne s \<Longrightarrow> CHR '':'' \<notin> set s"
  by (induction k ne s rule: address_dfa.induct) (auto split: if_splits)

lemma valid_endpoint_no_colon:
  "is_valid_protocol p \<Longrightarrow> CHR '':'' \<notin> set p"
  "is_valid_address a \<Longrightarrow> CHR '':'' \<notin> set a"
  by (auto simp: is_valid_protocol_def is_valid_address_def dest: address_dfa_no_colon)

text \<open>
  C19. The key of line 79 is canonical: for a valid protocol and address, the
  protocol, the address and the port can be read back from the key, so distinct
  endpoints never share a record.
\<close>

theorem url_roundtrip:
  "is_valid_protocol p \<Longrightarrow> is_valid_address a \<Longrightarrow> parse_url (make_url p a n) = Some (p, a, n)"
  by (simp add: parse_url_make_url valid_endpoint_no_colon)

theorem url_roundtrip_witness:
  "parse_url (make_url ''https'' ''10.0.0.1'' (-8)) = Some (''https'', ''10.0.0.1'', -8)"
  by (rule url_roundtrip) (simp_all add: is_valid_protocol_def is_valid_address_def is_digit_def)

section \<open>The example announcement\<close>

lemma decode_example_payload:
  "decode_announce example_payload =
     Some \<lparr>a_name = ''a'', a_protocol = ''http'', a_address = ''1.2.3.4'', a_port = 80,
           a_users = [''x''], a_visibility = Public\<rparr>"
  by (simp add: example_payload_def decode_announce_def valid_payload_def is_valid_protocol_def
      is_valid_address_def is_digit_def is_valid_visibility_def users_of_def)

lemma decode_example_payload2:
  "decode_announce example_payload2 =
     Some \<lparr>a_name = ''b'', a_protocol = ''http'', a_address = ''1.2.3.5'', a_port = 80,
           a_users = [], a_visibility = Public\<rparr>"
  by (simp add: example_payload2_def decode_announce_def valid_payload_def is_valid_protocol_def
      is_valid_address_def is_digit_def is_valid_visibility_def users_of_def)

lemma url_of_example2:
  "url_of \<lparr>a_name = n, a_protocol = ''http'', a_address = ''1.2.3.5'', a_port = 80,
           a_users = us, a_visibility = v\<rparr> = ''http://1.2.3.5:80''"
  by (simp add: url_of_def make_url_def js_int_str_def nat_digits.simps digit_char_def)

lemma url_of_example:
  "url_of \<lparr>a_name = n, a_protocol = ''http'', a_address = ''1.2.3.4'', a_port = 80,
           a_users = us, a_visibility = v\<rparr> = ''http://1.2.3.4:80''"
  by (simp add: url_of_def make_url_def js_int_str_def nat_digits.simps digit_char_def)

end
