(* ===== verification/Probe.thy ===== *)
theory Probe
  imports Payload
begin

text \<open>
  The LivenessProbe of \<open>src/index.js\<close> (lines 89--131): the outbound \<open>HEAD\<close> request
  built from the announcement, and the three event handlers that settle it
  (\<open>timeout\<close>, \<open>response\<close>, \<open>error\<close>). Each handler computes the value written to
  the server's \<open>online\<close> flag and the HTTP response sent to the announcer; the write
  itself happens on the registry's heap (theory \<open>Registry\<close>). The specification's
  classification (section 4.2) is written from its own words, by the network error
  classes it names; the lemmas show that the handlers implement it, with the flag
  and the response functions of the class Live, Unreachable-Soft or Unreachable-Hard,
  for every outcome except the resolution failures line 121 does not list.
\<close>

section \<open>The outbound request (lines 89--94)\<close>

text \<open>\<open>PROXY_REQUEST_TIMEOUT\<close> (line 11), in milliseconds.\<close>

definition proxy_request_timeout :: time where
  "proxy_request_timeout = 5000"

datatype client_module = HttpModule | HttpsModule

record probe_request =
  req_module :: client_module
  req_method :: string
  req_host :: string
  req_port :: int
  req_timeout :: time

definition probe_request_of :: "announcement \<Rightarrow> probe_request" where
  "probe_request_of a =
     \<lparr>req_module = (if a_protocol a = ''http'' then HttpModule else HttpsModule),
      req_method = ''HEAD'',
      req_host = a_address a,
      req_port = a_port a,
      req_timeout = proxy_request_timeout\<rparr>"

text \<open>
  Node's \<open>http.request\<close> validates the port synchronously and throws a
  \<open>RangeError\<close> for a port outside \<open>0..65535\<close>; the handler of line 59 does not
  catch it, so Express answers with its default error page (status 500).
\<close>

definition node_port_ok :: "int \<Rightarrow> bool" where
  "node_port_ok p \<longleftrightarrow> 0 \<le> p \<and> p \<le> 65535"

section \<open>Outcomes and responses\<close>

record probe_error =
  err_code :: string
  err_stack :: string

text \<open>What the network does with the request: a response with a status code, an
  error, or the socket timeout of line 95.\<close>

datatype probe_event =
    ProbeResponse nat
  | ProbeError probe_error
  | ProbeTimeout

datatype body = BodyEmpty | BodyJsonError string | BodyErrorPage

record http_response =
  resp_status :: nat
  resp_body :: body

text \<open>\<open>res.send()\<close> without a status: 200 with an empty body.\<close>

definition resp_ok :: http_response where
  "resp_ok = \<lparr>resp_status = 200, resp_body = BodyEmpty\<rparr>"

definition resp_bad_gateway :: http_response where
  "resp_bad_gateway = \<lparr>resp_status = 502, resp_body = BodyEmpty\<rparr>"

definition resp_bad_request :: http_response where
  "resp_bad_request = \<lparr>resp_status = 400, resp_body = BodyEmpty\<rparr>"

definition resp_crash :: http_response where
  "resp_crash = \<lparr>resp_status = 500, resp_body = BodyErrorPage\<rparr>"

section \<open>The handlers (lines 95--130)\<close>

text \<open>Line 98--115: the response handler; the first component is the value given
  to \<open>server.online\<close>.\<close>

definition on_response :: "nat \<Rightarrow> bool \<times> http_response" where
  "on_response status_code =
     (if status_code = 200 then (True, resp_ok) else (False, resp_bad_gateway))"

text \<open>Line 121: the error codes answered with 502.\<close>

definition is_soft_error_code :: "string \<Rightarrow> bool" where
  "is_soft_error_code code \<longleftrightarrow>
     code = ''EADDRINFO'' \<or> code = ''ECONNRESET'' \<or> code = ''ETIMEDOUT''"

text \<open>Lines 116--130: the error handler.\<close>

definition on_error :: "probe_error \<Rightarrow> bool \<times> http_response" where
  "on_error err =
     (False,
      if is_soft_error_code (err_code err) then resp_bad_gateway
      else \<lparr>resp_status = 500, resp_body = BodyJsonError (err_stack err)\<rparr>)"

text \<open>
  Lines 95--97: on timeout the request is aborted. In the Node versions this code was
  written for, an aborted request that has no response then emits \<open>error\<close> with a
  connection reset (\<open>socket hang up\<close>), and the handler of line 116 settles the
  probe; \<open>ProbeTimeout\<close> stands for that event. Node versions that emit no
  \<open>error\<close> after \<open>abort()\<close> leave the probe unsettled: no event reaches the
  handlers and the announcer is never answered, a run theory \<open>System\<close> covers
  as a request whose settling event never arrives.
\<close>

definition abort_error :: probe_error where
  "abort_error = \<lparr>err_code = ''ECONNRESET'', err_stack = ''Error: socket hang up''\<rparr>"

fun on_probe_event :: "probe_event \<Rightarrow> bool \<times> http_response" where
  "on_probe_event (ProbeResponse status_code) = on_response status_code"
| "on_probe_event (ProbeError err) = on_error err"
| "on_probe_event ProbeTimeout = on_error abort_error"

section \<open>The specification's classification (section 4.2)\<close>

datatype probe_class = Live | UnreachableSoft | UnreachableHard

text \<open>
  The transient network errors the specification names (section 4.2), by the codes
  Node reports them with: an address resolution failure is a failed
  \<open>getaddrinfo\<close> (\<open>ENOTFOUND\<close>, \<open>EAI_AGAIN\<close>, and \<open>EADDRINFO\<close> of early Node
  versions), a connection reset is \<open>ECONNRESET\<close>, a timeout is \<open>ETIMEDOUT\<close>.
\<close>

datatype net_failure = ResolutionFailure | ConnectionReset | NetTimeout

definition net_failure_of :: "string \<Rightarrow> net_failure option" where
  "net_failure_of code =
     (if code = ''ENOTFOUND'' \<or> code = ''EAI_AGAIN'' \<or> code = ''EADDRINFO'' then Some ResolutionFailure
      else if code = ''ECONNRESET'' then Some ConnectionReset
      else if code = ''ETIMEDOUT'' then Some NetTimeout
      else None)"

text \<open>
  Live: status 200. Unreachable-Soft: any other status, a transient network error,
  or the cancellation of a timed-out request (a cancelled request resolves as a
  network error). Unreachable-Hard: any other error.
\<close>

fun classify :: "probe_event \<Rightarrow> probe_class" where
  "classify (ProbeResponse status_code) = (if status_code = 200 then Live else UnreachableSoft)"
| "classify (ProbeError err) =
     (case net_failure_of (err_code err) of None \<Rightarrow> UnreachableHard | Some _ \<Rightarrow> UnreachableSoft)"
| "classify ProbeTimeout = UnreachableSoft"

definition spec_response :: "probe_class \<Rightarrow> probe_error option \<Rightarrow> bool \<times> http_response" where
  "spec_response cls err =
     (case cls of
        Live \<Rightarrow> (True, resp_ok)
      | UnreachableSoft \<Rightarrow> (False, resp_bad_gateway)
      | UnreachableHard \<Rightarrow>
          (False, \<lparr>resp_status = 500,
                   resp_body = BodyJsonError (case err of Some e \<Rightarrow> err_stack e | None \<Rightarrow> [])\<rparr>))"

fun event_error :: "probe_event \<Rightarrow> probe_error option" where
  "event_error (ProbeError err) = Some err"
| "event_error _ = None"

section \<open>Lemmas\<close>

lemma on_probe_event_online: "fst (on_probe_event ev) \<longleftrightarrow> classify ev = Live"
  by (cases ev) (auto simp: on_response_def on_error_def split: option.split)

lemma on_probe_event_refines:
  "\<not> (\<exists>e. ev = ProbeError e \<and> err_code e \<in> {''ENOTFOUND'', ''EAI_AGAIN''}) \<Longrightarrow>
   on_probe_event ev = spec_response (classify ev) (event_error ev)"
  by (cases ev)
    (auto simp: on_response_def on_error_def spec_response_def abort_error_def
      is_soft_error_code_def net_failure_of_def)

lemma on_probe_event_resolution:
  "err_code e \<in> {''ENOTFOUND'', ''EAI_AGAIN''} \<Longrightarrow>
   on_probe_event (ProbeError e) \<noteq> spec_response (classify (ProbeError e)) (event_error (ProbeError e))"
  by (auto simp: on_error_def spec_response_def is_soft_error_code_def net_failure_of_def
      resp_bad_gateway_def)

lemma probe_request_module:
  "is_valid_protocol (a_protocol a) \<Longrightarrow>
   req_module (probe_request_of a) = (if a_protocol a = ''https'' then HttpsModule else HttpModule)"
  by (auto simp: probe_request_of_def is_valid_protocol_def)

text \<open>
  C7. The handlers implement the specification's classification except for the
  resolution failures line 121 does not list: the value written to \<open>online\<close> is
  true exactly for a Live outcome, and the flag and the response are those the
  specification gives the outcome's class (200 for Live, 502 with an empty body for
  Unreachable-Soft, 500 with the stack for Unreachable-Hard) for every event except
  an error with code \<open>ENOTFOUND\<close> or \<open>EAI_AGAIN\<close>, which is answered 500 with the
  stack where the specification requires a 502.
\<close>

theorem probe_handlers_refine_classification:
  "fst (on_probe_event ev) = (classify ev = Live) \<and>
   (on_probe_event ev = spec_response (classify ev) (event_error ev) \<longleftrightarrow>
      \<not> (\<exists>e. ev = ProbeError e \<and> err_code e \<in> {''ENOTFOUND'', ''EAI_AGAIN''}))"
  using on_probe_event_online[of ev] on_probe_event_refines[of ev] on_probe_event_resolution
  by blast

theorem probe_handlers_refine_classification_witness:
  "on_probe_event (ProbeError \<lparr>err_code = ''ENOTFOUND'', err_stack = ''st''\<rparr>) \<noteq>
     spec_response UnreachableSoft None \<and>
   on_probe_event (ProbeError \<lparr>err_code = ''ETIMEDOUT'', err_stack = ''st''\<rparr>) = spec_response UnreachableSoft None \<and>
   on_probe_event (ProbeResponse 301) = spec_response UnreachableSoft None"
  using probe_handlers_refine_classification[of "ProbeError \<lparr>err_code = ''ENOTFOUND'', err_stack = ''st''\<rparr>"]
    probe_handlers_refine_classification[of "ProbeError \<lparr>err_code = ''ETIMEDOUT'', err_stack = ''st''\<rparr>"]
    probe_handlers_refine_classification[of "ProbeResponse 301"]
  by (simp_all add: net_failure_of_def spec_response_def)

end
