(* ===== verification/Registry.thy ===== *)
theory Registry
  imports Lru_Store Probe
begin

text \<open>
  The registry of \<open>src/index.js\<close>: class \<open>Prsnt\<close> with its \<open>serversCache\<close>
  (lines 13--18), the \<open>Server\<close> objects (lines 33--44), \<open>getServers\<close> (ListingService,
  lines 20--25) and the announce handler (AnnounceCoordinator, lines 59--136).

  JavaScript objects are shared by reference: the cache holds a reference to the
  \<open>Server\<close> object, and the probe handlers write \<open>server.online\<close> through the
  reference captured when the announcement was registered (lines 103, 109, 118).
  The state is therefore the cache of references together with an explicit heap
  of server objects (\<open>prsnt_heap\<close>, with allocation limit \<open>prsnt_lim\<close>).

  The handler runs in two phases, split at its only suspension point, the
  outbound probe: \<open>announce_begin\<close> is everything up to \<open>proxyReq.end()\<close>
  (validation, the provisional record, the request), \<open>announce_settle\<close> is the
  handler of the event that settles the probe. Between the two, other requests
  may run (theory \<open>System\<close>).
\<close>

section \<open>State\<close>

text \<open>\<open>SERVER_EXPIRY\<close> (line 10), in milliseconds.\<close>

definition server_expiry_default :: int where
  "server_expiry_default = 60000"

record server =
  name :: string
  url :: string
  protocol :: string
  address :: string
  port :: int
  users :: "string list"
  timestamp :: time
  online :: bool

record prsnt =
  servers_cache :: "(string, ref) lru"
  prsnt_heap :: "ref \<Rightarrow> server option"
  prsnt_lim :: ref

text \<open>\<open>new Prsnt({serverExpiry})\<close> (lines 14--18); \<open>None\<close> is an omitted option,
  replaced by the default. The value goes to \<open>lru-cache\<close> as \<open>maxAge\<close> unchanged.\<close>

definition prsnt_new :: "int option \<Rightarrow> prsnt" where
  "prsnt_new server_expiry =
     \<lparr>servers_cache = lru_new (case server_expiry of None \<Rightarrow> server_expiry_default | Some e \<Rightarrow> e),
      prsnt_heap = Map.empty,
      prsnt_lim = 0\<rparr>"

section \<open>Heap and cache primitives\<close>

definition alloc_server :: "server \<Rightarrow> prsnt \<Rightarrow> ref \<times> prsnt" where
  "alloc_server srv s =
     (prsnt_lim s,
      s\<lparr>prsnt_heap := (prsnt_heap s)(prsnt_lim s \<mapsto> srv), prsnt_lim := Suc (prsnt_lim s)\<rparr>)"

text \<open>\<open>server.online = b\<close> through the reference \<open>r\<close>.\<close>

definition set_online :: "ref \<Rightarrow> bool \<Rightarrow> prsnt \<Rightarrow> prsnt" where
  "set_online r b s =
     s\<lparr>prsnt_heap := (prsnt_heap s)(r := map_option (\<lambda>obj. obj\<lparr>online := b\<rparr>) (prsnt_heap s r))\<rparr>"

text \<open>\<open>this.serversCache.get(k)\<close>: may drop a stale entry.\<close>

definition cache_get :: "string \<Rightarrow> time \<Rightarrow> prsnt \<Rightarrow> ref option \<times> prsnt" where
  "cache_get k now s =
     (case lru_get k now (servers_cache s) of (v, c) \<Rightarrow> (v, s\<lparr>servers_cache := c\<rparr>))"

definition cache_set :: "string \<Rightarrow> ref \<Rightarrow> time \<Rightarrow> prsnt \<Rightarrow> prsnt" where
  "cache_set k r now s = s\<lparr>servers_cache := lru_set k r now (servers_cache s)\<rparr>"

section \<open>ListingService: \<open>getServers\<close> (lines 20--25)\<close>

text \<open>\<open>.map(k => this.serversCache.get(k))\<close>, threading the cache through the reads.\<close>

fun fetch_keys :: "time \<Rightarrow> string list \<Rightarrow> prsnt \<Rightarrow> ref option list \<times> prsnt" where
  "fetch_keys now [] s = ([], s)"
| "fetch_keys now (k # ks) s =
     (case cache_get k now s of
        (v, s1) \<Rightarrow> (case fetch_keys now ks s1 of (vs, s2) \<Rightarrow> (v # vs, s2)))"

text \<open>
  \<open>.sort((a, b) => b.timestamp - a.timestamp)\<close>: \<open>Array.prototype.sort\<close> is
  stable, so the result is the stable sort by descending timestamp, computed here
  by insertion: an element goes before the first element not newer than it.
\<close>

fun insert_desc :: "server \<Rightarrow> server list \<Rightarrow> server list" where
  "insert_desc x [] = [x]"
| "insert_desc x (y # ys) =
     (if timestamp y \<le> timestamp x then x # y # ys else y # insert_desc x ys)"

fun sort_desc :: "server list \<Rightarrow> server list" where
  "sort_desc [] = []"
| "sort_desc (x # xs) = insert_desc x (sort_desc xs)"

text \<open>
  The keys, their reads, \<open>.filter(v => v !== undefined)\<close>, the objects the
  references point to (serialised by \<open>res.json\<close>), sorted.
\<close>

definition get_servers :: "time \<Rightarrow> prsnt \<Rightarrow> server list \<times> prsnt" where
  "get_servers now s =
     (case fetch_keys now (lru_keys (servers_cache s)) s of
        (vs, s') \<Rightarrow> (sort_desc (List.map_filter (prsnt_heap s') (List.map_filter id vs)), s'))"

section \<open>AnnounceCoordinator: the announce handler (lines 59--136)\<close>

text \<open>\<open>new Server(name, url, protocol, address, port, users, timestamp, oldOnline)\<close>
  (line 85).\<close>

definition new_server :: "announcement \<Rightarrow> string \<Rightarrow> time \<Rightarrow> bool \<Rightarrow> server" where
  "new_server a u now old_online =
     \<lparr>name = a_name a, url = u, protocol = a_protocol a, address = a_address a,
      port = a_port a, users = a_users a, timestamp = now, online = old_online\<rparr>"

text \<open>Lines 77--87: for a public announcement, the provisional record seeded with
  the previous record's \<open>online\<close> flag, written to the cache.\<close>

definition register_public :: "time \<Rightarrow> announcement \<Rightarrow> prsnt \<Rightarrow> ref option \<times> prsnt" where
  "register_public now a s =
     (if a_visibility a = Public then
        (let u = url_of a in
         case cache_get u now s of
           (old, s1) \<Rightarrow>
             (let old_online =
                    (case old of
                       None \<Rightarrow> False
                     | Some r \<Rightarrow> (case prsnt_heap s1 r of None \<Rightarrow> False | Some obj \<Rightarrow> online obj))
              in case alloc_server (new_server a u now old_online) s1 of
                   (r, s2) \<Rightarrow> (Some r, cache_set u r now s2)))
      else (None, s))"

text \<open>What the synchronous part of the handler leaves behind.\<close>

datatype begin_result =
    Rejected
  | Crashed
  | Probing "ref option" probe_request

text \<open>
  Lines 60--94 and 132--135: the guard, the provisional record, and the request.
  \<open>Rejected\<close> is the 400 of line 133, with the state untouched. \<open>Crashed\<close> is a
  request whose port Node refuses: the exception escapes the handler after the
  record was written. \<open>Probing srv req\<close> waits for the probe of \<open>req\<close>, with
  \<open>srv\<close> the reference to the provisional record (\<open>None\<close> for a private
  announcement: \<open>server = null\<close>).
\<close>

definition announce_begin :: "time \<Rightarrow> json \<Rightarrow> prsnt \<Rightarrow> begin_result \<times> prsnt" where
  "announce_begin now j s =
     (case decode_announce j of
        None \<Rightarrow> (Rejected, s)
      | Some a \<Rightarrow>
          (case register_public now a s of
             (srv, s1) \<Rightarrow>
               if node_port_ok (a_port a) then (Probing srv (probe_request_of a), s1)
               else (Crashed, s1)))"

definition begin_response :: "begin_result \<Rightarrow> http_response option" where
  "begin_response b =
     (case b of Rejected \<Rightarrow> Some resp_bad_request | Crashed \<Rightarrow> Some resp_crash | Probing _ _ \<Rightarrow> None)"

text \<open>Lines 95--130: the event that settles the probe writes \<open>online\<close> through the
  captured reference (\<open>if (server)\<close>) and answers the announcer.\<close>

definition announce_settle :: "ref option \<Rightarrow> probe_event \<Rightarrow> prsnt \<Rightarrow> http_response \<times> prsnt" where
  "announce_settle srv ev s =
     (case on_probe_event ev of
        (b, resp) \<Rightarrow> (resp, case srv of None \<Rightarrow> s | Some r \<Rightarrow> set_online r b s))"

text \<open>The whole handler when no other request runs while the probe is in flight:
  the synchronous part, then the event \<open>ev\<close> that settles the probe.\<close>

definition announce_run :: "time \<Rightarrow> json \<Rightarrow> probe_event \<Rightarrow> prsnt \<Rightarrow> http_response \<times> prsnt" where
  "announce_run now j ev s =
     (case announce_begin now j s of
        (Rejected, s1) \<Rightarrow> (resp_bad_request, s1)
      | (Crashed, s1) \<Rightarrow> (resp_crash, s1)
      | (Probing srv req, s1) \<Rightarrow> announce_settle srv ev s1)"

section \<open>Abstract view and invariant\<close>

text \<open>What a reader at time \<open>now\<close> can observe: the object behind the fresh
  cache entry of a url.\<close>

definition registry_view :: "time \<Rightarrow> prsnt \<Rightarrow> string \<rightharpoonup> server" where
  "registry_view now s k = Option.bind (lru_abs now (servers_cache s) k) (prsnt_heap s)"

text \<open>
  The invariant: keys are distinct; each entry references an allocated object whose
  \<open>url\<close> is the entry's key and whose \<open>timestamp\<close> is the entry's write time;
  the allocated objects are exactly those below the allocation limit.
\<close>

text \<open>The \<open>online\<close> value a new provisional record for \<open>u\<close> inherits.\<close>

definition seed_online :: "time \<Rightarrow> prsnt \<Rightarrow> string \<Rightarrow> bool" where
  "seed_online now s u = (case registry_view now s u of None \<Rightarrow> False | Some obj \<Rightarrow> online obj)"

definition reg_inv :: "prsnt \<Rightarrow> bool" where
  "reg_inv s \<longleftrightarrow>
     lru_wf (servers_cache s) \<and>
     (\<forall>k r w. (k, (r, w)) \<in> set (lru_entries (servers_cache s)) \<longrightarrow>
        r < prsnt_lim s \<and>
        (\<exists>obj. prsnt_heap s r = Some obj \<and> url obj = k \<and> timestamp obj = w)) \<and>
     (\<forall>r. prsnt_heap s r \<noteq> None \<longleftrightarrow> r < prsnt_lim s)"

section \<open>Primitives\<close>

lemma cache_get_result [store_simps]: "fst (cache_get k now s) = lru_abs now (servers_cache s) k"
  by (simp add: cache_get_def lru_get_result prod.case_eq_if)

lemma cache_get_frame [store_simps]:
  "prsnt_heap (snd (cache_get k now s)) = prsnt_heap s"
  "prsnt_lim (snd (cache_get k now s)) = prsnt_lim s"
  "servers_cache (snd (cache_get k now s)) = snd (lru_get k now (servers_cache s))"
  by (simp_all add: cache_get_def prod.case_eq_if)

lemma fetch_keys_result:
  "fst (fetch_keys now ks s) = map (lru_abs now (servers_cache s)) ks \<and>
   prsnt_heap (snd (fetch_keys now ks s)) = prsnt_heap s \<and>
   prsnt_lim (snd (fetch_keys now ks s)) = prsnt_lim s \<and>
   lru_abs now (servers_cache (snd (fetch_keys now ks s))) = lru_abs now (servers_cache s)"
proof (induction ks arbitrary: s)
  case Nil
  then show ?case by simp
next
  case (Cons k ks)
  let ?s1 = "snd (cache_get k now s)"
  have "lru_abs now (servers_cache ?s1) = lru_abs now (servers_cache s)"
    by (simp add: cache_get_frame lru_abs_get)
  with Cons.IH[of ?s1] show ?case
    by (simp add: cache_get_result cache_get_frame prod.case_eq_if)
qed

lemma fetch_keys_get_all:
  "fetch_keys now ks s =
     (fst (lru_get_all now ks (servers_cache s)), s\<lparr>servers_cache := snd (lru_get_all now ks (servers_cache s))\<rparr>)"
  by (induction ks arbitrary: s) (simp_all add: cache_get_def prod.case_eq_if)

section \<open>The sort\<close>

lemma mset_insert_desc: "mset (insert_desc x xs) = add_mset x (mset xs)"
  by (induction xs) auto

lemma mset_sort_desc: "mset (sort_desc xs) = mset xs"
  by (induction xs) (auto simp: mset_insert_desc)

lemma set_insert_desc: "set (insert_desc x xs) = insert x (set xs)"
  by (induction xs) auto

lemma sorted_insert_desc:
  "sorted_wrt (\<lambda>a b. timestamp b \<le> timestamp a) xs \<Longrightarrow>
   sorted_wrt (\<lambda>a b. timestamp b \<le> timestamp a) (insert_desc x xs)"
  by (induction xs) (auto simp: set_insert_desc)

lemma sorted_sort_desc: "sorted_wrt (\<lambda>a b. timestamp b \<le> timestamp a) (sort_desc xs)"
  by (induction xs) (auto simp: sorted_insert_desc)

lemma filter_insert_desc:
  "sorted_wrt (\<lambda>a b. timestamp b \<le> timestamp a) xs \<Longrightarrow>
   filter (\<lambda>y. timestamp y = t) (insert_desc x xs) = filter (\<lambda>y. timestamp y = t) (x # xs)"
  by (induction xs) auto

lemma sort_desc_stable:
  "filter (\<lambda>y. timestamp y = t) (sort_desc xs) = filter (\<lambda>y. timestamp y = t) xs"
  by (induction xs) (simp_all add: filter_insert_desc sorted_sort_desc)

section \<open>The listing\<close>

lemma set_sort_desc [simp]: "set (sort_desc xs) = set xs"
  by (metis mset_sort_desc set_mset_mset)

lemma get_servers_split:
  obtains vs s' where "get_servers now s = (sort_desc (List.map_filter (prsnt_heap s) (List.map_filter id vs)), s')"
    and "vs = map (lru_abs now (servers_cache s)) (lru_keys (servers_cache s))"
    and "prsnt_heap s' = prsnt_heap s" and "prsnt_lim s' = prsnt_lim s"
    and "lru_abs now (servers_cache s') = lru_abs now (servers_cache s)"
proof -
  obtain vs s' where fk: "fetch_keys now (lru_keys (servers_cache s)) s = (vs, s')"
    by fastforce
  with fetch_keys_result[of now "lru_keys (servers_cache s)" s] that show ?thesis
    by (simp add: get_servers_def)
qed

lemma get_servers_eq:
  "fst (get_servers now s) = sort_desc (List.map_filter (registry_view now s) (lru_keys (servers_cache s)))"
  by (rule get_servers_split[of now s]) (simp add: map_filter_id_map registry_view_def [abs_def])

lemma get_servers_frame:
  "lru_max_age (servers_cache (snd (get_servers now s))) = lru_max_age (servers_cache s)"
  "prsnt_heap (snd (get_servers now s)) = prsnt_heap s"
  "prsnt_lim (snd (get_servers now s)) = prsnt_lim s"
  "registry_view now (snd (get_servers now s)) = registry_view now s"
  by (simp add: get_servers_def fetch_keys_get_all prod.case_eq_if)
    (rule get_servers_split[of now s], simp add: registry_view_def [abs_def])+

lemma registry_view_in_keys:
  "registry_view now s k = Some x \<Longrightarrow> k \<in> set (lru_keys (servers_cache s))"
  by (auto simp: registry_view_def lru_abs_def lru_keys_def split: option.splits if_splits
      dest: map_of_SomeD intro: rev_image_eqI)

lemma set_get_servers: "set (fst (get_servers now s)) = ran (registry_view now s)"
  by (auto simp: get_servers_eq set_map_filter ran_def dest: registry_view_in_keys)

section \<open>The invariant is preserved\<close>

lemma reg_inv_new [inv_intros]: "reg_inv (prsnt_new e)"
  by (simp add: reg_inv_def prsnt_new_def lru_new_def lru_wf_def lru_keys_def)

lemma registry_view_new [simp]: "registry_view t (prsnt_new e) = Map.empty"
  by (simp add: registry_view_def [abs_def] prsnt_new_def lru_new_def lru_abs_def)

lemma prsnt_new_max_age [simp]:
  "lru_max_age (servers_cache (prsnt_new e)) = (case e of None \<Rightarrow> server_expiry_default | Some x \<Rightarrow> x)"
  by (simp add: prsnt_new_def lru_new_def)

lemma reg_inv_cache_get [inv_intros]: "reg_inv s \<Longrightarrow> reg_inv (snd (cache_get k now s))"
  using lru_entries_get_sub[of k now "servers_cache s"]
  by (auto simp: reg_inv_def cache_get_frame lru_wf_get)

lemma reg_inv_fetch_keys [inv_intros]: "reg_inv s \<Longrightarrow> reg_inv (snd (fetch_keys now ks s))"
  by (induction ks arbitrary: s) (simp_all add: reg_inv_cache_get prod.case_eq_if)

lemma reg_inv_get_servers [inv_intros]: "reg_inv s \<Longrightarrow> reg_inv (snd (get_servers now s))"
  by (simp add: get_servers_def reg_inv_fetch_keys prod.case_eq_if)

lemma reg_inv_set_online [inv_intros]: "reg_inv s \<Longrightarrow> reg_inv (set_online r b s)"
  by (fastforce simp: reg_inv_def set_online_def)

lemma alloc_server_fst [simp]: "fst (alloc_server srv s) = prsnt_lim s"
  by (simp add: alloc_server_def)

lemma reg_inv_entryD:
  "reg_inv s \<Longrightarrow> (k, (r, w)) \<in> set (lru_entries (servers_cache s)) \<Longrightarrow>
   r < prsnt_lim s \<and> (\<exists>obj. prsnt_heap s r = Some obj \<and> url obj = k \<and> timestamp obj = w)"
  by (simp add: reg_inv_def)

lemma reg_inv_alloc_set:
  assumes "reg_inv s" and "url srv = u" and "timestamp srv = now"
  shows "reg_inv (cache_set u (prsnt_lim s) now (snd (alloc_server srv s)))"
proof -
  let ?c = "servers_cache s" and ?l = "prsnt_lim s"
  have entry: "r < Suc ?l \<and> (\<exists>obj. ((prsnt_heap s)(?l \<mapsto> srv)) r = Some obj \<and> url obj = k \<and> timestamp obj = w)"
    if "(k, (r, w)) \<in> set (lru_entries (lru_set u ?l now ?c))" for k r w
  proof -
    have "(k, (r, w)) = (u, (?l, now)) \<or> (k, (r, w)) \<in> set (lru_entries ?c)"
      using set_lru_entries_set[of u ?l now ?c] that by auto
    then show ?thesis
    proof
      assume "(k, (r, w)) = (u, (?l, now))"
      with assms(2,3) show ?thesis by auto
    next
      assume "(k, (r, w)) \<in> set (lru_entries ?c)"
      with reg_inv_entryD[OF assms(1)] show ?thesis by fastforce
    qed
  qed
  with assms(1) show ?thesis
    by (auto simp: reg_inv_def cache_set_def alloc_server_def lru_wf_set less_Suc_eq)
qed

lemma reg_inv_register_public [inv_intros]: "reg_inv s \<Longrightarrow> reg_inv (snd (register_public now a s))"
  by (auto simp: register_public_def Let_def prod.case_eq_if new_server_def
      intro!: reg_inv_alloc_set reg_inv_cache_get)

lemma reg_inv_announce_begin [inv_intros]: "reg_inv s \<Longrightarrow> reg_inv (snd (announce_begin now j s))"
  by (simp add: announce_begin_def reg_inv_register_public prod.case_eq_if split: option.split)

lemma reg_inv_announce_settle [inv_intros]:
  "reg_inv s \<Longrightarrow> reg_inv (snd (announce_settle srv ev s))"
  by (simp add: announce_settle_def reg_inv_set_online prod.case_eq_if split: option.split)

section \<open>The two phases of the announce handler\<close>

lemma reg_inv_absD:
  "reg_inv s \<Longrightarrow> lru_abs t (servers_cache s) k = Some r \<Longrightarrow>
   r < prsnt_lim s \<and>
   (\<exists>obj. prsnt_heap s r = Some obj \<and> url obj = k \<and> \<not> lru_is_stale (servers_cache s) t (timestamp obj))"
  by (auto dest!: lru_absD map_of_SomeD reg_inv_entryD)

lemma reg_inv_viewD:
  "reg_inv s \<Longrightarrow> registry_view t s k = Some x \<Longrightarrow>
   url x = k \<and> \<not> lru_is_stale (servers_cache s) t (timestamp x)"
  by (auto simp: registry_view_def dest: reg_inv_absD split: Option.bind_splits)

lemma register_public_private:
  "a_visibility a = Private \<Longrightarrow> register_public now a s = (None, s)"
  by (simp add: register_public_def)

lemma register_public_public:
  "a_visibility a = Public \<Longrightarrow> fst (register_public now a s) = Some (prsnt_lim s)"
  by (simp add: register_public_def Let_def prod.case_eq_if cache_get_frame)

lemma register_public_cache:
  "a_visibility a = Public \<Longrightarrow>
   servers_cache (snd (register_public now a s)) =
     lru_set (url_of a) (prsnt_lim s) now (snd (lru_get (url_of a) now (servers_cache s)))"
  by (simp add: register_public_def Let_def prod.case_eq_if cache_get_frame cache_set_def alloc_server_def)

lemma register_public_heap:
  "a_visibility a = Public \<Longrightarrow>
   prsnt_heap (snd (register_public now a s)) =
     (prsnt_heap s)(prsnt_lim s \<mapsto> new_server a (url_of a) now (seed_online now s (url_of a)))"
  by (auto simp: register_public_def Let_def prod.case_eq_if cache_get_frame cache_set_def alloc_server_def
      seed_online_def registry_view_def cache_get_result split: option.split)

lemma register_public_lim:
  "prsnt_lim (snd (register_public now a s)) = (if a_visibility a = Public then Suc (prsnt_lim s) else prsnt_lim s)"
  by (simp add: register_public_def Let_def prod.case_eq_if cache_get_frame cache_set_def alloc_server_def)

lemma view_register_public_same:
  "a_visibility a = Public \<Longrightarrow> now \<le> t \<Longrightarrow>
   registry_view t (snd (register_public now a s)) (url_of a) =
     (if lru_is_stale (servers_cache s) t now then None
      else Some (new_server a (url_of a) now (seed_online now s (url_of a))))"
  by (simp add: registry_view_def register_public_cache register_public_heap lru_abs_set_same)

lemma view_register_public_now:
  "a_visibility a = Public \<Longrightarrow> 0 \<le> lru_max_age (servers_cache s) \<Longrightarrow>
   registry_view now (snd (register_public now a s)) (url_of a) =
     Some (new_server a (url_of a) now (seed_online now s (url_of a)))"
  by (simp add: view_register_public_same lru_stale_at_write)

lemma view_register_public_other:
  assumes "reg_inv s" and "k \<noteq> url_of a"
  shows "registry_view t (snd (register_public now a s)) k = registry_view t s k"
proof (cases "a_visibility a")
  case Public
  have abs: "lru_abs t (servers_cache (snd (register_public now a s))) k = lru_abs t (servers_cache s) k"
    using assms(2) Public by (simp add: register_public_cache lru_abs_set_other lru_abs_get_other)
  show ?thesis
  proof (cases "lru_abs t (servers_cache s) k")
    case None
    with abs show ?thesis by (simp add: registry_view_def)
  next
    case (Some r)
    with reg_inv_absD[OF assms(1)] have "r \<noteq> prsnt_lim s" by fastforce
    with abs Some Public show ?thesis by (simp add: registry_view_def register_public_heap)
  qed
next
  case Private
  then show ?thesis by (simp add: register_public_private)
qed

lemma view_set_online:
  "registry_view t (set_online r b s) k =
     (if lru_abs t (servers_cache s) k = Some r
      then map_option (\<lambda>obj. obj\<lparr>online := b\<rparr>) (registry_view t s k)
      else registry_view t s k)"
  by (auto simp: registry_view_def set_online_def split: Option.bind_splits)

lemma announce_begin_invalid:
  "\<not> valid_payload j \<Longrightarrow> announce_begin now j s = (Rejected, s)"
  by (simp add: announce_begin_def decode_announce_def)

lemma announce_begin_valid:
  "decode_announce j = Some a \<Longrightarrow>
   announce_begin now j s =
     (if node_port_ok (a_port a) then Probing (fst (register_public now a s)) (probe_request_of a) else Crashed,
      snd (register_public now a s))"
  by (simp add: announce_begin_def prod.case_eq_if)

section \<open>Helpers for the handler\<close>

lemma new_server_online [simp]: "(new_server a u now b)\<lparr>online := b'\<rparr> = new_server a u now b'"
  by (simp add: new_server_def)

lemma announce_run_valid:
  "decode_announce j = Some a \<Longrightarrow>
   announce_run now j ev s =
     (if node_port_ok (a_port a) then announce_settle (fst (register_public now a s)) ev (snd (register_public now a s))
      else (resp_crash, snd (register_public now a s)))"
  by (simp add: announce_run_def announce_begin_valid)

lemma announce_settle_eq:
  "announce_settle srv ev s =
     (snd (on_probe_event ev), case srv of None \<Rightarrow> s | Some r \<Rightarrow> set_online r (fst (on_probe_event ev)) s)"
  by (simp add: announce_settle_def prod.case_eq_if)

lemma get_servers_filter_url:
  assumes "reg_inv s"
  shows "filter (\<lambda>x. url x = k) (fst (get_servers now s)) =
           (case registry_view now s k of None \<Rightarrow> [] | Some x \<Rightarrow> [x])"
proof -
  let ?ks = "lru_keys (servers_cache s)"
  have dist: "distinct ?ks" using assms by (simp add: reg_inv_def lru_wf_def)
  have "mset (filter (\<lambda>x. url x = k) (fst (get_servers now s))) =
        mset (filter (\<lambda>x. url x = k) (List.map_filter (registry_view now s) ?ks))"
    by (simp add: get_servers_eq mset_filter mset_sort_desc)
  also have "filter (\<lambda>x. url x = k) (List.map_filter (registry_view now s) ?ks) =
        List.map_filter (registry_view now s) (filter (\<lambda>k'. k' = k) ?ks)"
    using reg_inv_viewD[OF assms] by (blast intro: filter_key_map_filter)
  then have "mset (filter (\<lambda>x. url x = k) (List.map_filter (registry_view now s) ?ks)) =
        mset (List.map_filter (registry_view now s) (filter (\<lambda>k'. k' = k) ?ks))"
    by (rule arg_cong)
  also have "\<dots> = mset (case registry_view now s k of None \<Rightarrow> [] | Some x \<Rightarrow> [x])"
    using dist registry_view_in_keys[of now s k]
    by (auto simp: filter_eq_distinct List.map_filter_def split: option.splits)
  finally show ?thesis by (auto split: option.splits simp del: mset_filter)
qed

lemma sorted_rev_sort_desc: "sorted (map timestamp (rev (sort_desc xs)))"
  using sorted_sort_desc[of xs] by (simp add: sorted_wrt_rev sorted_wrt_map rev_map)

lemma prsnt_lim_settle [simp]: "prsnt_lim (snd (announce_settle srv ev s)) = prsnt_lim s"
  by (simp add: announce_settle_def set_online_def prod.case_eq_if split: option.split)

lemma servers_cache_set_online [simp]: "servers_cache (set_online r b s) = servers_cache s"
  by (simp add: set_online_def)

lemma lru_max_age_register_public [simp]:
  "lru_max_age (servers_cache (snd (register_public now a s))) = lru_max_age (servers_cache s)"
  by (cases "a_visibility a") (simp_all add: register_public_cache register_public_private)

lemma get_servers_distinct_url:
  assumes "reg_inv s"
  shows "distinct (map url (fst (get_servers now s)))"
proof -
  let ?ks = "lru_keys (servers_cache s)"
  have "map url (List.map_filter (registry_view now s) ?ks) = filter (\<lambda>k. registry_view now s k \<noteq> None) ?ks"
    using reg_inv_viewD[OF assms, of now] by (blast intro: map_key_map_filter)
  moreover have "distinct ?ks" using assms by (simp add: reg_inv_def lru_wf_def)
  ultimately have "distinct (map url (List.map_filter (registry_view now s) ?ks))" by simp
  moreover have "mset (map url (sort_desc (List.map_filter (registry_view now s) ?ks))) =
                 mset (map url (List.map_filter (registry_view now s) ?ks))"
    by (simp add: mset_sort_desc)
  ultimately show ?thesis
    unfolding get_servers_eq by (metis mset_eq_imp_distinct_iff)
qed

section \<open>Properties of the registry\<close>

text \<open>
  C1. A valid public announcement whose probe settles with event \<open>ev\<close>, with no
  other request in between, leaves the registry's observable store equal to the
  previous one updated at the announcement's url with the new record, online exactly
  when the probe's class is Live; unless the probe failed with a resolution error
  line 121 does not list, the response is the one the specification assigns to the
  probe's class.
\<close>

theorem announce_sequential_refines:
  assumes inv: "reg_inv s" and age: "0 < lru_max_age (servers_cache s)"
    and dec: "decode_announce j = Some a" and pub: "a_visibility a = Public"
    and port: "node_port_ok (a_port a)"
  shows "registry_view now (snd (announce_run now j ev s)) =
           (registry_view now s)(url_of a \<mapsto> new_server a (url_of a) now (classify ev = Live)) \<and>
         (\<not> (\<exists>e. ev = ProbeError e \<and> err_code e \<in> {''ENOTFOUND'', ''EAI_AGAIN''}) \<longrightarrow>
            fst (announce_run now j ev s) = snd (spec_response (classify ev) (event_error ev)))"
proof -
  let ?u = "url_of a" and ?s1 = "snd (register_public now a s)" and ?b = "fst (on_probe_event ev)"
  have run: "announce_run now j ev s = (snd (on_probe_event ev), set_online (prsnt_lim s) ?b ?s1)"
    using dec pub port by (simp add: announce_run_valid register_public_public announce_settle_eq)
  have hit: "lru_abs now (servers_cache ?s1) k = Some (prsnt_lim s) \<longleftrightarrow> k = ?u" for k
  proof (cases "k = ?u")
    case True
    with pub age show ?thesis by (simp add: register_public_cache lru_abs_set_same lru_stale_at_write)
  next
    case False
    with pub have "lru_abs now (servers_cache ?s1) k = lru_abs now (servers_cache s) k"
      by (simp add: register_public_cache lru_abs_set_other lru_abs_get_other)
    with False show ?thesis using reg_inv_absD[OF inv, of now k "prsnt_lim s"] by auto
  qed
  have view: "registry_view now (set_online (prsnt_lim s) ?b ?s1) k =
      ((registry_view now s)(?u \<mapsto> new_server a ?u now (classify ev = Live))) k" for k
    using pub age view_register_public_other[OF inv, of k a now now]
    by (simp add: view_set_online hit view_register_public_now on_probe_event_online)
  show ?thesis
    using run view on_probe_event_refines[of ev] by (auto simp: fun_eq_iff)
qed

theorem announce_sequential_refines_witness:
  "registry_view 1000 (snd (announce_run 1000 example_payload (ProbeResponse 200) (prsnt_new None))) =
     [''http://1.2.3.4:80'' \<mapsto> \<lparr>name = ''a'', url = ''http://1.2.3.4:80'', protocol = ''http'',
        address = ''1.2.3.4'', port = 80, users = [''x''], timestamp = 1000, online = True\<rparr>] \<and>
   fst (announce_run 1000 example_payload (ProbeResponse 200) (prsnt_new None)) = resp_ok"
proof -
  let ?a = "\<lparr>a_name = ''a'', a_protocol = ''http'', a_address = ''1.2.3.4'', a_port = 80,
             a_users = [''x''], a_visibility = Public\<rparr>"
  have "reg_inv (prsnt_new None)" by (rule reg_inv_new)
  moreover have "0 < lru_max_age (servers_cache (prsnt_new None))"
    by (simp add: server_expiry_default_def)
  moreover have "decode_announce example_payload = Some ?a" by (rule decode_example_payload)
  moreover have "a_visibility ?a = Public" by simp
  moreover have "node_port_ok (a_port ?a)" by (simp add: node_port_ok_def)
  ultimately have "registry_view 1000 (snd (announce_run 1000 example_payload (ProbeResponse 200) (prsnt_new None))) =
           (registry_view 1000 (prsnt_new None))(url_of ?a \<mapsto> new_server ?a (url_of ?a) 1000 (classify (ProbeResponse 200) = Live)) \<and>
         (\<not> (\<exists>e. ProbeResponse 200 = ProbeError e \<and> err_code e \<in> {''ENOTFOUND'', ''EAI_AGAIN''}) \<longrightarrow>
           fst (announce_run 1000 example_payload (ProbeResponse 200) (prsnt_new None)) =
             snd (spec_response (classify (ProbeResponse 200)) (event_error (ProbeResponse 200))))"
    by (rule announce_sequential_refines)
  then show ?thesis
    by (simp add: new_server_def url_of_example spec_response_def)
qed

text \<open>
  C4. A payload that fails the guard of lines 66--73 is answered 400, leaves the
  registry untouched and issues no probe.
\<close>

theorem announce_malformed_rejected:
  "\<not> valid_payload j \<Longrightarrow>
   announce_begin now j s = (Rejected, s) \<and> announce_run now j ev s = (resp_bad_request, s)"
  by (simp add: announce_begin_invalid announce_run_def)

theorem announce_malformed_rejected_witness:
  "announce_begin 0 (JObj [(''name'', JStr ''a''), (''protocol'', JStr ''ftp''), (''address'', JStr ''1.2.3.4''),
      (''port'', JNum 80), (''visibility'', JStr ''public''), (''users'', JArr [])]) (prsnt_new None) = (Rejected, prsnt_new None) \<and>
   announce_run 0 (JObj [(''name'', JStr ''a''), (''protocol'', JStr ''ftp''), (''address'', JStr ''1.2.3.4''),
      (''port'', JNum 80), (''visibility'', JStr ''public''), (''users'', JArr [])]) ProbeTimeout (prsnt_new None) =
     (resp_bad_request, prsnt_new None)"
  by (rule announce_malformed_rejected) (simp add: valid_payload_def is_valid_protocol_def)

text \<open>
  C5. Right after the synchronous part of a valid public announcement, before the
  probe settles, a listing shows exactly one record for the url: the new record,
  with the new timestamp and the \<open>online\<close> flag of the previous live record (false
  if there was none).
\<close>

theorem announce_provisional_listed:
  assumes inv: "reg_inv s" and age: "0 < lru_max_age (servers_cache s)"
    and dec: "decode_announce j = Some a" and pub: "a_visibility a = Public"
  shows "filter (\<lambda>x. url x = url_of a) (fst (get_servers now (snd (announce_begin now j s)))) =
           [new_server a (url_of a) now
              (case registry_view now s (url_of a) of None \<Rightarrow> False | Some old \<Rightarrow> online old)]"
proof -
  have s1: "snd (announce_begin now j s) = snd (register_public now a s)"
    using dec by (simp add: announce_begin_valid)
  have "reg_inv (snd (register_public now a s))" using inv by (rule reg_inv_register_public)
  then show ?thesis
    using s1 pub age by (simp add: get_servers_filter_url view_register_public_now seed_online_def)
qed

theorem announce_provisional_listed_witness:
  "filter (\<lambda>x. url x = ''http://1.2.3.4:80'')
      (fst (get_servers 1000 (snd (announce_begin 1000 example_payload (prsnt_new None))))) =
   [\<lparr>name = ''a'', url = ''http://1.2.3.4:80'', protocol = ''http'', address = ''1.2.3.4'',
      port = 80, users = [''x''], timestamp = 1000, online = False\<rparr>]"
  using announce_provisional_listed[where s = "prsnt_new None" and now = 1000, OF reg_inv_new _ decode_example_payload]
  by (simp add: server_expiry_default_def new_server_def url_of_example)

text \<open>
  C13. A private announcement creates no record and changes nothing, whatever the
  probe's outcome; it still issues the probe when Node accepts its port.
\<close>

theorem announce_private_no_record:
  assumes "decode_announce j = Some a" and "a_visibility a = Private"
  shows "snd (announce_begin now j s) = s \<and> snd (announce_run now j ev s) = s \<and>
         (node_port_ok (a_port a) \<longrightarrow> fst (announce_begin now j s) = Probing None (probe_request_of a))"
  using assms by (simp add: announce_begin_valid announce_run_valid register_public_private announce_settle_eq)

theorem announce_private_no_record_witness:
  "snd (announce_begin 5 (JObj [(''name'', JStr ''p''), (''protocol'', JStr ''https''), (''address'', JStr ''10.0.0.1''),
      (''port'', JNum 443), (''visibility'', JStr ''private''), (''users'', JArr [])]) (prsnt_new None)) = prsnt_new None"
  using announce_private_no_record[of "JObj [(''name'', JStr ''p''), (''protocol'', JStr ''https''), (''address'', JStr ''10.0.0.1''),
      (''port'', JNum 443), (''visibility'', JStr ''private''), (''users'', JArr [])]"
      "\<lparr>a_name = ''p'', a_protocol = ''https'', a_address = ''10.0.0.1'', a_port = 443, a_users = [], a_visibility = Private\<rparr>"
      5 "prsnt_new None" ProbeTimeout]
  by (simp add: decode_announce_def valid_payload_def is_valid_protocol_def is_valid_address_def
      is_digit_def is_valid_visibility_def users_of_def)

text \<open>
  C6. Expiry is pull-based, counted from the write, and follows \<open>lru-cache\<close>'s test
  \<open>now - written > maxAge\<close>: the record of a public announcement made at \<open>now\<close> is
  in a listing taken at any later \<open>t\<close> exactly when \<open>maxAge\<close> is 0 or
  \<open>t \<le> now + maxAge\<close>, however many reads happen in between. In particular it is
  still listed at \<open>now + maxAge\<close>, the instant from which the specification requires
  it gone.
\<close>

theorem expiry_window:
  assumes inv: "reg_inv s" and dec: "decode_announce j = Some a" and pub: "a_visibility a = Public"
    and later: "now \<le> t"
  shows "(\<exists>x \<in> set (fst (get_servers t (snd (announce_begin now j s)))). url x = url_of a) \<longleftrightarrow>
           lru_max_age (servers_cache s) = 0 \<or> int t \<le> int now + lru_max_age (servers_cache s)"
proof -
  let ?s1 = "snd (register_public now a s)"
  have s1: "snd (announce_begin now j s) = ?s1"
    using dec by (simp add: announce_begin_valid)
  have "reg_inv ?s1" using inv by (rule reg_inv_register_public)
  then have "(\<exists>x \<in> set (fst (get_servers t ?s1)). url x = url_of a) \<longleftrightarrow>
             filter (\<lambda>x. url x = url_of a) (fst (get_servers t ?s1)) \<noteq> []"
    by (auto simp: filter_empty_conv)
  also have "\<dots> \<longleftrightarrow> \<not> lru_is_stale (servers_cache s) t now"
    using \<open>reg_inv ?s1\<close> pub later by (simp add: get_servers_filter_url view_register_public_same)
  finally show ?thesis using s1 by (auto simp: lru_is_stale_def)
qed

theorem expiry_window_witness:
  "(\<exists>x \<in> set (fst (get_servers 61000 (snd (announce_begin 1000 example_payload (prsnt_new None))))).
       url x = ''http://1.2.3.4:80'') \<and>
   \<not> (\<exists>x \<in> set (fst (get_servers 61001 (snd (announce_begin 1000 example_payload (prsnt_new None))))).
       url x = ''http://1.2.3.4:80'')"
  using expiry_window[where s = "prsnt_new None" and now = 1000 and t = 61000, OF reg_inv_new decode_example_payload]
    expiry_window[where s = "prsnt_new None" and now = 1000 and t = 61001, OF reg_inv_new decode_example_payload]
  by (simp add: server_expiry_default_def url_of_example)

text \<open>
  C8. A listing holds exactly the records that have a cache entry under their own
  url, written at their own timestamp, that is not stale by \<open>lru-cache\<close>'s test:
  \<open>maxAge\<close> is 0, or the listing is taken at most \<open>maxAge\<close> after the write.
\<close>

theorem listing_exactly_unexpired:
  assumes inv: "reg_inv s"
  shows "set (fst (get_servers now s)) =
           {x. \<exists>r. (url x, (r, timestamp x)) \<in> set (lru_entries (servers_cache s)) \<and>
                  prsnt_heap s r = Some x \<and>
                  (lru_max_age (servers_cache s) = 0 \<or>
                   int now \<le> int (timestamp x) + lru_max_age (servers_cache s))}"
proof -
  have wf: "keys_distinct (lru_entries (servers_cache s))"
    using inv by (simp add: reg_inv_def lru_wf_def lru_keys_def)
  show ?thesis
  proof (intro set_eqI iffI)
    fix x assume "x \<in> set (fst (get_servers now s))"
    then obtain k where v: "registry_view now s k = Some x" by (auto simp: set_get_servers ran_def)
    then obtain r w where mo: "map_of (lru_entries (servers_cache s)) k = Some (r, w)"
      and age: "\<not> lru_is_stale (servers_cache s) now w" and hx: "prsnt_heap s r = Some x"
      by (auto simp: registry_view_def dest!: lru_absD split: Option.bind_splits)
    from mo have mem: "(k, (r, w)) \<in> set (lru_entries (servers_cache s))" by (rule map_of_SomeD)
    with reg_inv_entryD[OF inv mem] hx have "k = url x" "w = timestamp x" by auto
    with mem age hx show "x \<in> {x. \<exists>r. (url x, (r, timestamp x)) \<in> set (lru_entries (servers_cache s)) \<and>
                  prsnt_heap s r = Some x \<and>
                  (lru_max_age (servers_cache s) = 0 \<or>
                   int now \<le> int (timestamp x) + lru_max_age (servers_cache s))}"
      by (auto simp: lru_is_stale_def)
  next
    fix x assume "x \<in> {x. \<exists>r. (url x, (r, timestamp x)) \<in> set (lru_entries (servers_cache s)) \<and>
                  prsnt_heap s r = Some x \<and>
                  (lru_max_age (servers_cache s) = 0 \<or>
                   int now \<le> int (timestamp x) + lru_max_age (servers_cache s))}"
    then obtain r where "(url x, (r, timestamp x)) \<in> set (lru_entries (servers_cache s))"
      "prsnt_heap s r = Some x"
      "lru_max_age (servers_cache s) = 0 \<or> int now \<le> int (timestamp x) + lru_max_age (servers_cache s)"
      by blast
    with wf have "registry_view now s (url x) = Some x"
      by (auto simp: registry_view_def lru_abs_def lru_is_stale_def map_of_SomeD_distinct)
    then show "x \<in> set (fst (get_servers now s))" by (auto simp: set_get_servers ran_def)
  qed
qed

theorem listing_exactly_unexpired_witness:
  "set (fst (get_servers 2000 (snd (announce_begin 1000 example_payload (prsnt_new None))))) =
   {x. \<exists>r. (url x, (r, timestamp x)) \<in> set (lru_entries (servers_cache (snd (announce_begin 1000 example_payload (prsnt_new None))))) \<and>
         prsnt_heap (snd (announce_begin 1000 example_payload (prsnt_new None))) r = Some x \<and>
         (lru_max_age (servers_cache (snd (announce_begin 1000 example_payload (prsnt_new None)))) = 0 \<or>
          int 2000 \<le> int (timestamp x) + lru_max_age (servers_cache (snd (announce_begin 1000 example_payload (prsnt_new None)))))}"
  by (rule listing_exactly_unexpired) (simp add: reg_inv_announce_begin reg_inv_new)

text \<open>
  C15. When every entry is fresh, a listing returns the stable descending sort of
  the records in the cache's recency order and leaves that order reversed, since
  each read of line 21 moves its key to the front. So records with equal
  timestamps change places from one listing to the next.
\<close>

theorem listing_reverses_recency:
  assumes "reg_inv s" and "lru_fresh now (servers_cache s)"
  shows "fst (get_servers now s) =
           sort_desc (List.map_filter (prsnt_heap s) (map (\<lambda>(k, r, w). r) (lru_entries (servers_cache s)))) \<and>
         lru_entries (servers_cache (snd (get_servers now s))) = rev (lru_entries (servers_cache s))"
proof -
  let ?c = "servers_cache s"
  have "keys_distinct (lru_entries ?c)" using assms(1) by (simp add: reg_inv_def lru_wf_def lru_keys_def)
  then have "fst (lru_get_all now (map fst (lru_entries ?c)) ?c) = map (\<lambda>(k, v, w). Some v) (lru_entries ?c) \<and>
             snd (lru_get_all now (map fst (lru_entries ?c)) ?c) = ?c\<lparr>lru_entries := rev (lru_entries ?c)\<rparr>"
    using lru_get_all_moves[of ?c "[]" "lru_entries ?c" now] assms(2) by simp
  then show ?thesis
    by (simp add: get_servers_def fetch_keys_get_all lru_keys_def map_filter_id_Some prod.case_eq_if)
qed

theorem listing_reverses_recency_witness:
  "map url (fst (get_servers 1500 (snd (announce_begin 1000 example_payload2
      (snd (announce_begin 1000 example_payload (prsnt_new None))))))) =
     [''http://1.2.3.5:80'', ''http://1.2.3.4:80''] \<and>
   map url (fst (get_servers 1600 (snd (get_servers 1500 (snd (announce_begin 1000 example_payload2
      (snd (announce_begin 1000 example_payload (prsnt_new None))))))))) =
     [''http://1.2.3.4:80'', ''http://1.2.3.5:80'']"
proof -
  let ?s = "snd (announce_begin 1000 example_payload2 (snd (announce_begin 1000 example_payload (prsnt_new None))))"
  let ?s' = "snd (get_servers 1500 ?s)"
  have inv: "reg_inv ?s" by (intro reg_inv_announce_begin reg_inv_new)
  have c: "lru_entries (servers_cache ?s) = [(''http://1.2.3.5:80'', 1, 1000), (''http://1.2.3.4:80'', 0, 1000)]"
    "lru_max_age (servers_cache ?s) = 60000"
    by (simp_all add: announce_begin_valid decode_example_payload decode_example_payload2
        register_public_cache register_public_lim url_of_example url_of_example2 lru_set_eq lru_get_def
        prsnt_new_def lru_new_def server_expiry_default_def)
  have h: "prsnt_heap ?s 0 = Some (new_server \<lparr>a_name = ''a'', a_protocol = ''http'', a_address = ''1.2.3.4'',
              a_port = 80, a_users = [''x''], a_visibility = Public\<rparr> ''http://1.2.3.4:80'' 1000 False)"
    "prsnt_heap ?s (Suc 0) = Some (new_server \<lparr>a_name = ''b'', a_protocol = ''http'', a_address = ''1.2.3.5'',
              a_port = 80, a_users = [], a_visibility = Public\<rparr> ''http://1.2.3.5:80'' 1000 False)"
    by (simp_all add: announce_begin_valid decode_example_payload decode_example_payload2
        register_public_heap register_public_lim url_of_example url_of_example2 seed_online_def
        registry_view_def lru_abs_def register_public_cache lru_set_eq lru_get_def prsnt_new_def
        lru_new_def)
  have f1: "lru_fresh 1500 (servers_cache ?s)" using c by (simp add: lru_fresh_def lru_is_stale_def)
  note l1 = listing_reverses_recency[OF inv f1]
  have inv': "reg_inv ?s'" using inv by (rule reg_inv_get_servers)
  have f2: "lru_fresh 1600 (servers_cache ?s')"
    using c l1 by (simp add: lru_fresh_def lru_is_stale_def get_servers_frame)
  note l2 = listing_reverses_recency[OF inv' f2]
  show ?thesis
    using l1 l2 c h by (simp add: get_servers_frame new_server_def)
qed

text \<open>C16. A listing is ordered by timestamp, most recent first.\<close>

theorem listing_sorted_desc:
  "sorted_wrt (\<lambda>a b. timestamp b \<le> timestamp a) (fst (get_servers now s))"
  by (simp add: get_servers_eq sorted_sort_desc)

text \<open>C17. The insertion sort of the model is the stable sort by descending timestamp:
  it agrees with the library's stable \<open>sort_key\<close> run on the reversed order.\<close>

theorem sort_desc_stable_sort:
  "sort_desc xs = rev (sort_key timestamp (rev xs))"
proof -
  have "sort_key timestamp (rev xs) = rev (sort_desc xs)"
  proof (rule properties_for_sort_key)
    show "mset (rev (sort_desc xs)) = mset (rev xs)" by (simp add: mset_sort_desc)
  next
    fix k :: server
    have "filter (\<lambda>x. timestamp k = timestamp x) (sort_desc xs) =
          filter (\<lambda>x. timestamp k = timestamp x) xs"
      using sort_desc_stable[of "timestamp k" xs] by (simp add: eq_commute)
    then show "filter (\<lambda>x. timestamp k = timestamp x) (rev (sort_desc xs)) =
          filter (\<lambda>x. timestamp k = timestamp x) (rev xs)"
      by (simp flip: rev_filter)
  next
    show "sorted (map timestamp (rev (sort_desc xs)))" by (rule sorted_rev_sort_desc)
  qed
  then show ?thesis by simp
qed

text \<open>
  C20. The guard accepts any JSON number as the port. For a public announcement whose
  port Node refuses, the provisional record is written before \<open>http.request\<close>
  throws: the announcer gets a 500 error page, no probe runs, and the record stays
  listed with its inherited \<open>online\<close> flag until it expires.
\<close>

theorem announce_bad_port_keeps_record:
  assumes "decode_announce j = Some a" and "a_visibility a = Public"
    and "\<not> node_port_ok (a_port a)" and "0 < lru_max_age (servers_cache s)"
  shows "fst (announce_run now j ev s) = resp_crash \<and>
         registry_view now (snd (announce_run now j ev s)) (url_of a) =
           Some (new_server a (url_of a) now
                   (case registry_view now s (url_of a) of None \<Rightarrow> False | Some old \<Rightarrow> online old))"
  using assms by (simp add: announce_run_valid view_register_public_now seed_online_def)

theorem announce_bad_port_keeps_record_witness:
  "fst (announce_run 1000 (JObj [(''name'', JStr ''a''), (''protocol'', JStr ''http''),
      (''address'', JStr ''1.2.3.4''), (''port'', JNum 70000), (''visibility'', JStr ''public''),
      (''users'', JArr [])]) ProbeTimeout (prsnt_new None)) = resp_crash"
  using announce_bad_port_keeps_record[of "JObj [(''name'', JStr ''a''), (''protocol'', JStr ''http''),
      (''address'', JStr ''1.2.3.4''), (''port'', JNum 70000), (''visibility'', JStr ''public''),
      (''users'', JArr [])]" "\<lparr>a_name = ''a'', a_protocol = ''http'', a_address = ''1.2.3.4'',
      a_port = 70000, a_users = [], a_visibility = Public\<rparr>" "prsnt_new None" 1000 ProbeTimeout]
  by (simp add: decode_announce_def valid_payload_def is_valid_protocol_def is_valid_address_def
      is_digit_def is_valid_visibility_def users_of_def node_port_ok_def server_expiry_default_def)

text \<open>
  C21. Expiry also resets the inherited liveness: once the previous record of a url
  is stale (written more than \<open>maxAge\<close> ago), a new announcement's provisional
  record starts offline, whatever the stale record said.
\<close>

theorem reannounce_after_expiry_seeds_offline:
  assumes "decode_announce j = Some a" and "a_visibility a = Public"
    and "0 < lru_max_age (servers_cache s)"
    and "lru_written (servers_cache s) (url_of a) = Some w"
    and "int w + lru_max_age (servers_cache s) < int now"
  shows "registry_view now (snd (announce_begin now j s)) (url_of a) =
           Some (new_server a (url_of a) now False)"
proof -
  have "registry_view now s (url_of a) = None"
    using assms(3-5)
    by (auto simp: registry_view_def lru_abs_def lru_written_def lru_is_stale_def split: option.splits)
  with assms(1-3) show ?thesis
    by (simp add: announce_begin_valid view_register_public_now seed_online_def)
qed

theorem reannounce_after_expiry_seeds_offline_witness:
  "registry_view 61001 (snd (announce_begin 61001 example_payload
      (snd (announce_run 1000 example_payload (ProbeResponse 200) (prsnt_new None))))) ''http://1.2.3.4:80'' =
   Some \<lparr>name = ''a'', url = ''http://1.2.3.4:80'', protocol = ''http'', address = ''1.2.3.4'',
         port = 80, users = [''x''], timestamp = 61001, online = False\<rparr>"
proof -
  let ?s = "snd (announce_run 1000 example_payload (ProbeResponse 200) (prsnt_new None))"
  have w: "lru_written (servers_cache ?s) ''http://1.2.3.4:80'' = Some 1000"
    by (simp add: announce_run_valid decode_example_payload node_port_ok_def announce_settle_eq
        register_public_public register_public_cache url_of_example lru_written_def map_of_lru_set
        set_online_def server_expiry_default_def)
  have age: "lru_max_age (servers_cache ?s) = 60000"
    by (simp add: announce_run_valid decode_example_payload node_port_ok_def announce_settle_eq
        register_public_public set_online_def server_expiry_default_def)
  show ?thesis
    using reannounce_after_expiry_seeds_offline[OF decode_example_payload _ _ _, of ?s 1000 61001] w age
    by (simp add: url_of_example new_server_def)
qed

end
