(* ===== verification/Cli.thy ===== *)
theory Cli
  imports Registry "HOL-Library.While_Combinator"
begin

text \<open>
  The command-line entry point of \<open>src/index.js\<close> (lines 141--186): \<open>_findArg\<close>, the
  three settings read with \<open>parseInt(\<dots>, 10) || default\<close>, the construction of the
  registry, and the options handed to \<open>listen\<close>. JavaScript's \<open>parseInt\<close>, whose
  result is a Number (a double, or \<open>NaN\<close>, or an infinity), and the truthiness of
  \<open>||\<close> are written out. The lemmas show that \<open>_findArg\<close> returns the value of the
  first matching argument, that \<open>parseInt\<close> reads back every integer below
  \<open>2^53\<close> in magnitude that JavaScript renders, and what the CLI really configures:
  the expiry comes from the argument \<open>crdsUrl\<close>, the host argument never reaches
  the socket, and the store expires records unless the expiry overflows to
  \<open>Infinity\<close>.
\<close>

section \<open>JavaScript primitives\<close>

text \<open>The white space and line terminators \<open>parseInt\<close> skips (within 8-bit characters).\<close>

definition is_js_space :: "char \<Rightarrow> bool" where
  "is_js_space c \<longleftrightarrow> of_char c \<in> set [9, 10, 11, 12, 13, 32, 160 :: nat]"

text \<open>The characters the regular expression \<open>.\<close> does not match.\<close>

definition is_line_terminator :: "char \<Rightarrow> bool" where
  "is_line_terminator c \<longleftrightarrow> of_char c \<in> set [10, 13 :: nat]"

text \<open>
  A JavaScript Number as far as the command line produces one: \<open>NaN\<close>, a finite
  value (\<open>parseInt\<close> yields integers only), or an infinity (\<open>True\<close>: negative).
\<close>

datatype js_number = JsNaN | JsFinite int | JsInfinity bool

text \<open>Bit length: the number of binary digits of \<open>n\<close>.\<close>

fun bit_len :: "nat \<Rightarrow> nat" where
  "bit_len n = (if n = 0 then 0 else Suc (bit_len (n div 2)))"

text \<open>
  The double nearest to a natural number, ties to even (IEEE 754 round to nearest
  with 53 significant bits): below \<open>2^53\<close> every integer is exact; above, the bits
  beyond the 53 leading ones are rounded away. A magnitude that rounds to
  \<open>2^1024\<close> or beyond overflows (\<open>None\<close>).
\<close>

definition round_double_nat :: "nat \<Rightarrow> nat option" where
  "round_double_nat n =
     (if n < 2 ^ 53 then Some n
      else let e = bit_len n - 53; q = n div 2 ^ e; r = n mod 2 ^ e;
               q' = (if 2 ^ e < 2 * r \<or> (2 * r = 2 ^ e \<and> odd q) then Suc q else q)
           in if 2 ^ 1024 \<le> q' * 2 ^ e then None else Some (q' * 2 ^ e))"

text \<open>The Number value of a mathematical integer (rounding is symmetric in the sign).\<close>

definition js_number_of_int :: "int \<Rightarrow> js_number" where
  "js_number_of_int i =
     (case round_double_nat (nat \<bar>i\<bar>) of
        None \<Rightarrow> JsInfinity (i < 0)
      | Some m \<Rightarrow> JsFinite (sgn i * int m))"

text \<open>
  \<open>parseInt(str, 10)\<close>: skip leading white space, take an optional sign, read the
  longest prefix of decimal digits; no digit gives \<open>NaN\<close>; the result is the Number
  of the integer read, correctly rounded as V8 computes it (the language
  specification lets an engine replace digits after the 20th significant one by 0).
  Negative zero is zero.
\<close>

definition js_parse_int :: "string \<Rightarrow> js_number" where
  "js_parse_int str =
     (let s = dropWhile is_js_space str;
          neg = (case s of c # _ \<Rightarrow> c = CHR ''-'' | [] \<Rightarrow> False);
          s1 = (case s of c # r \<Rightarrow> if c = CHR ''-'' \<or> c = CHR ''+'' then r else s | [] \<Rightarrow> []);
          z = takeWhile is_digit s1
      in if z = [] then JsNaN else js_number_of_int ((if neg then -1 else 1) * int (parse_nat z)))"

text \<open>\<open>ToString\<close> of what \<open>_findArg\<close> returns: \<open>null\<close> becomes \<open>"null"\<close>.\<close>

definition js_to_string :: "string option \<Rightarrow> string" where
  "js_to_string v = (case v of None \<Rightarrow> ''null'' | Some s \<Rightarrow> s)"

text \<open>\<open>n || d\<close> on a number: \<open>NaN\<close> and \<open>0\<close> are falsy.\<close>

definition js_or_num :: "js_number \<Rightarrow> int \<Rightarrow> js_number" where
  "js_or_num v d =
     (case v of JsNaN \<Rightarrow> JsFinite d | JsFinite n \<Rightarrow> if n = 0 then JsFinite d else v | JsInfinity b \<Rightarrow> v)"

text \<open>\<open>String(n)\<close> of a number (integers of up to 21 digits are written out in full;
  only such ports reach the log).\<close>

definition js_number_str :: "js_number \<Rightarrow> string" where
  "js_number_str v =
     (case v of JsNaN \<Rightarrow> ''NaN'' | JsFinite n \<Rightarrow> js_int_str n
      | JsInfinity b \<Rightarrow> if b then ''-Infinity'' else ''Infinity'')"

text \<open>\<open>s || d\<close> on a string or \<open>null\<close>: \<open>null\<close> and \<open>''\<close> are falsy.\<close>

definition js_or_str :: "string option \<Rightarrow> string \<Rightarrow> string" where
  "js_or_str v d = (case v of None \<Rightarrow> d | Some s \<Rightarrow> if s = [] then d else s)"

section \<open>\<open>_findArg\<close> (lines 166--175)\<close>

text \<open>
  \<open>arg.match(new RegExp('^' + name + '=(.+)$'))\<close> for a name without regular
  expression metacharacters (the three names used): the argument is the name, an
  equals sign and a non-empty rest without line terminators; the group is the rest.
\<close>

definition arg_match :: "string \<Rightarrow> string \<Rightarrow> string option" where
  "arg_match argname arg =
     (let v = drop (Suc (length argname)) arg
      in if take (Suc (length argname)) arg = argname @ ''='' \<and> v \<noteq> [] \<and>
            list_all (\<lambda>c. \<not> is_line_terminator c) v
         then Some v else None)"

text \<open>
  The loop of lines 167--174, kept as a loop: the state is the index \<open>i\<close> and the
  value returned so far (\<open>None\<close> while the loop goes on); \<open>return match[1]\<close> ends
  it early, \<open>return null\<close> follows the last iteration.
\<close>

definition find_arg_loop :: "string \<Rightarrow> string list \<Rightarrow> (nat \<times> string option) option" where
  "find_arg_loop argname args =
     while_option (\<lambda>(i, found). found = None \<and> i < length args)
       (\<lambda>(i, found). (Suc i, arg_match argname (args ! i))) (0, None)"

definition find_arg_js :: "string \<Rightarrow> string list \<Rightarrow> string option" where
  "find_arg_js argname args =
     (case find_arg_loop argname args of None \<Rightarrow> None | Some (_, found) \<Rightarrow> found)"

text \<open>The same search as a recursion over the arguments: the reference for the loop.\<close>

fun find_arg :: "string \<Rightarrow> string list \<Rightarrow> string option" where
  "find_arg argname [] = None"
| "find_arg argname (arg # args) =
     (case arg_match argname arg of Some v \<Rightarrow> Some v | None \<Rightarrow> find_arg argname args)"

section \<open>The configuration (lines 165--186)\<close>

record cli_config =
  cli_host :: string
  cli_port :: js_number
  cli_server_expiry :: js_number

text \<open>Lines 165 and 176--178; \<open>argv\<close> is \<open>process.argv\<close>, whose first two entries are the
  interpreter and the script.\<close>

definition cli_config_of :: "string list \<Rightarrow> cli_config" where
  "cli_config_of argv =
     (let args = drop 2 argv
      in \<lparr>cli_host = js_or_str (find_arg_js ''host'' args) ''0.0.0.0'',
          cli_port = js_or_num (js_parse_int (js_to_string (find_arg_js ''port'' args))) 8000,
          cli_server_expiry =
            js_or_num (js_parse_int (js_to_string (find_arg_js ''crdsUrl'' args))) server_expiry_default\<rparr>)"

text \<open>
  \<open>lru-cache\<close>'s reading of the \<open>maxAge\<close> option (\<open>options.maxAge || 0\<close>) as the
  integer of theory \<open>Lru_Store\<close>: \<open>NaN\<close> is 0; \<open>Infinity\<close>, which no age
  exceeds, acts as 0; \<open>-Infinity\<close>, which every age exceeds, acts as any negative
  value.
\<close>

definition lru_max_age_of :: "js_number \<Rightarrow> int" where
  "lru_max_age_of v = (case v of JsNaN \<Rightarrow> 0 | JsFinite n \<Rightarrow> n | JsInfinity b \<Rightarrow> if b then -1 else 0)"

text \<open>Lines 180--182: \<open>new Prsnt({serverExpiry})\<close>, the number handed to
  \<open>lru-cache\<close> as it is, negative or not.\<close>

definition cli_prsnt :: "string list \<Rightarrow> prsnt" where
  "cli_prsnt argv = prsnt_new (Some (lru_max_age_of (cli_server_expiry (cli_config_of argv))))"

text \<open>The options object a caller passes to \<open>listen\<close>, by property.\<close>

record listen_options =
  lo_host :: "string option"
  lo_hostname :: "string option"
  lo_port :: "js_number option"

text \<open>Lines 183--186: the CLI passes \<open>{host, port}\<close>.\<close>

definition cli_listen_options :: "cli_config \<Rightarrow> listen_options" where
  "cli_listen_options cfg =
     \<lparr>lo_host = Some (cli_host cfg), lo_hostname = None, lo_port = Some (cli_port cfg)\<rparr>"

text \<open>
  Lines 141--144: \<open>listen({hostname = null, port = 9999} = {})\<close> destructures
  \<open>hostname\<close>, not \<open>host\<close>; the pair is what \<open>server.listen(port, hostname)\<close>
  receives (\<open>None\<close> is \<open>null\<close>: every interface).
\<close>

definition listen_bind :: "listen_options \<Rightarrow> string option \<times> js_number" where
  "listen_bind opts = (lo_hostname opts, case lo_port opts of None \<Rightarrow> JsFinite 9999 | Some p \<Rightarrow> p)"

text \<open>Line 150: the address logged once the socket listens.\<close>

definition listen_log :: "string option \<times> js_number \<Rightarrow> string" where
  "listen_log b =
     ''http://'' @ js_or_str (fst b) ''127.0.0.1'' @ '':'' @ js_number_str (snd b)"

section \<open>Starting the server (lines 141--159)\<close>

text \<open>
  What the operating system does with \<open>server.listen(port, hostname)\<close> once Node
  accepted its arguments: the socket is bound, or binding fails with an error code
  (\<open>EADDRINUSE\<close>, \<open>EACCES\<close>, \<open>ENOTFOUND\<close> for a hostname, \<open>\<dots>\<close>).
\<close>

datatype bind_result = BindOk | BindFailed string

text \<open>What the process shows: the log line of line 150, the warning of line 152
  (the callback's \<open>else\<close> branch) or of line 157 (the \<open>.catch\<close>), or an uncaught
  error, which ends the process.\<close>

datatype listen_effect =
    LogLine string
  | CallbackWarn string
  | CatchWarn string
  | UncaughtError string

text \<open>Lines 148--154: the callback handed to \<open>server.listen\<close>.\<close>

definition listen_callback :: "string option \<times> js_number \<Rightarrow> string option \<Rightarrow> listen_effect" where
  "listen_callback b err = (case err of None \<Rightarrow> LogLine (listen_log b) | Some e \<Rightarrow> CallbackWarn e)"

text \<open>Node's port check (\<open>validatePort\<close>): an integer in \<open>0..65535\<close>; an infinity
  fails it.\<close>

definition js_port_ok :: "js_number \<Rightarrow> bool" where
  "js_port_ok v = (case v of JsFinite p \<Rightarrow> node_port_ok p | _ \<Rightarrow> False)"

text \<open>
  Lines 145--158 composed with Node's documented behaviour: \<open>server.listen\<close> throws
  \<open>ERR_SOCKET_BAD_PORT\<close> synchronously for a port that fails the check, inside the
  \<open>.then\<close> callback, so the \<open>.catch\<close> of line 156 receives it; the callback is a
  listener of the \<open>'listening'\<close> event, called without arguments; a bind failure is
  an \<open>'error'\<close> event, and the server has no listener for it.
\<close>

definition listen_outcome :: "string option \<times> js_number \<Rightarrow> bind_result \<Rightarrow> listen_effect" where
  "listen_outcome b r =
     (if \<not> js_port_ok (snd b) then CatchWarn ''ERR_SOCKET_BAD_PORT''
      else case r of BindOk \<Rightarrow> listen_callback b None | BindFailed code \<Rightarrow> UncaughtError code)"

section \<open>Lemmas\<close>

lemma find_arg_loop_from:
  "i \<le> length args \<Longrightarrow>
   map_option snd (while_option (\<lambda>(i, found). found = None \<and> i < length args)
       (\<lambda>(i, found). (Suc i, arg_match n (args ! i))) (i, None)) =
   Some (find_arg n (drop i args))"
proof (induction "length args - i" arbitrary: i)
  case 0
  then show ?case by (simp add: while_option_unfold[of _ _ "(i, None)"])
next
  case (Suc k)
  then have i: "i < length args" "drop i args = args ! i # drop (Suc i) args"
    by (simp_all add: Cons_nth_drop_Suc)
  show ?case
  proof (cases "arg_match n (args ! i)")
    case None
    then show ?thesis
      using Suc.hyps(1)[of "Suc i"] Suc.hyps(2) i
      by (simp add: while_option_unfold[of _ _ "(i, None)"])
  next
    case (Some v)
    then show ?thesis
      using i by (simp add: while_option_unfold[of _ _ "(i, None)"] while_option_unfold[of _ _ "(Suc i, Some v)"])
  qed
qed

lemma find_arg_js_eq [simp]: "find_arg_js n args = find_arg n args"
  using find_arg_loop_from[of 0 args n]
  by (auto simp: find_arg_js_def find_arg_loop_def split: option.split)

lemma arg_match_arg [simp]:
  "v \<noteq> [] \<Longrightarrow> list_all (\<lambda>c. \<not> is_line_terminator c) v \<Longrightarrow> arg_match n (n @ ''='' @ v) = Some v"
  by (simp add: arg_match_def Let_def)

lemma find_arg_absent:
  "list_all (\<lambda>a. take (length n + 1) a \<noteq> n @ ''='') args \<Longrightarrow> find_arg n args = None"
  by (induction args) (simp_all add: arg_match_def Let_def)

lemma js_parse_int_null [simp]: "js_parse_int ''null'' = JsNaN"
  by (simp add: js_parse_int_def is_js_space_def is_digit_def)

lemma digit_not_js_space: "is_digit c \<Longrightarrow> \<not> is_js_space c"
  by (auto simp: is_digit_def is_js_space_def)

lemma digit_not_line_terminator: "is_digit c \<Longrightarrow> \<not> is_line_terminator c"
  by (auto simp: is_digit_def is_line_terminator_def)

lemma minus_not_js_space [simp]: "\<not> is_js_space CHR ''-''" and
  minus_not_line_terminator [simp]: "\<not> is_line_terminator CHR ''-''"
  by (simp_all add: is_js_space_def is_line_terminator_def)

lemma takeWhile_digits_append:
  "list_all is_digit ds \<Longrightarrow> r = [] \<or> \<not> is_digit (hd r) \<Longrightarrow> takeWhile is_digit (ds @ r) = ds"
  by (induction ds) (cases r; simp)+

lemma js_int_str_cases:
  obtains "i < 0" "js_int_str i = CHR ''-'' # nat_digits (nat (- i))"
  | d ds where "0 \<le> i" "js_int_str i = d # ds" "is_digit d" "list_all is_digit (d # ds)"
    "nat_digits (nat i) = d # ds"
proof (cases "i < 0")
  case True
  then show ?thesis using that(1) by (simp add: js_int_str_def)
next
  case False
  obtain d ds where ds: "nat_digits (nat i) = d # ds"
    using nat_digits_digits[of "nat i"] by (cases "nat_digits (nat i)") auto
  show ?thesis
    using that(2)[of d ds] False ds nat_digits_digits[of "nat i"] by (simp add: js_int_str_def)
qed

lemma js_int_str_no_line_terminator:
  "js_int_str i \<noteq> [] \<and> list_all (\<lambda>c. \<not> is_line_terminator c) (js_int_str i)"
  using nat_digits_digits[of "nat (- i)"] nat_digits_digits[of "nat i"]
  by (auto simp: js_int_str_def list_all_iff digit_not_line_terminator)

lemma js_number_of_int_exact:
  assumes "\<bar>i\<bar> < 2 ^ 53"
  shows "js_number_of_int i = JsFinite i"
proof -
  have "nat \<bar>i\<bar> < 2 ^ 53" using assms by (simp add: nat_less_iff)
  then show ?thesis by (simp add: js_number_of_int_def round_double_nat_def sgn_mult_abs)
qed

lemma js_or_num_truthy:
  "d \<noteq> 0 \<Longrightarrow> js_or_num v d \<noteq> JsNaN \<and> js_or_num v d \<noteq> JsFinite 0"
  by (simp add: js_or_num_def split: js_number.split)

lemma js_parse_int_append:
  assumes "r = [] \<or> \<not> is_digit (hd r)"
  shows "js_parse_int (js_int_str i @ r) = js_number_of_int i"
proof (cases i rule: js_int_str_cases)
  case 1
  then show ?thesis
    using assms nat_digits_digits[of "nat (- i)"]
    by (simp add: js_parse_int_def takeWhile_digits_append parse_nat_digits)
next
  case (2 d ds)
  have "\<not> is_js_space d" "d \<noteq> CHR ''-''" "d \<noteq> CHR ''+''"
    using 2 by (auto simp: digit_not_js_space is_digit_def)
  then show ?thesis
    using 2 assms takeWhile_digits_append[of "d # ds" r] parse_nat_digits[of "nat i"]
    by (simp add: js_parse_int_def)
qed

section \<open>What the command line configures\<close>

text \<open>
  C28. \<open>_findArg\<close> returns the group of the first argument that matches
  \<open>^name=(.+)$\<close>, and \<open>null\<close> when none does: the loop is the library's \<open>find\<close>.
\<close>

theorem find_arg_is_first_match:
  "find_arg_js n args =
     (case find (\<lambda>a. arg_match n a \<noteq> None) args of None \<Rightarrow> None | Some a \<Rightarrow> arg_match n a)"
  unfolding find_arg_js_eq by (induction args) (auto split: option.split)

text \<open>
  C26. The loop of \<open>_findArg\<close> always ends, after at most one iteration per
  argument: \<open>while_option\<close> returns, at an index within the arguments.
\<close>

theorem find_arg_loop_halts:
  "\<exists>i v. find_arg_loop n args = Some (i, v) \<and> i \<le> length args"
proof -
  let ?b = "\<lambda>(i, found). found = None \<and> i < length args"
  let ?c = "\<lambda>(i::nat, found::string option). (Suc i, arg_match n (args ! i))"
  have "\<exists>r. while_option ?b ?c (0, None) = Some r"
    by (rule measure_while_option_Some[where P = "\<lambda>(i, _). i \<le> length args"
          and f = "\<lambda>(i, _). length args - i"]) auto
  then obtain i v where r: "while_option ?b ?c (0, None) = Some (i, v)" by auto
  have "i \<le> length args"
    using while_option_rule[where P = "\<lambda>(i, _). i \<le> length args", OF _ r] by auto
  with r show ?thesis by (auto simp: find_arg_loop_def)
qed

text \<open>
  C24. The three settings read back from their arguments: \<open>host=h port=p crdsUrl=e\<close>
  configure host \<open>h\<close>, port \<open>p\<close> and expiry \<open>e\<close>, for every non-empty host without
  line terminators and every non-zero port and expiry below \<open>2^53\<close> in magnitude,
  where a double holds every integer exactly (zero falls back to the default
  through \<open>||\<close>).
\<close>

theorem cli_config_roundtrip:
  assumes "h \<noteq> []" "list_all (\<lambda>c. \<not> is_line_terminator c) h" "p \<noteq> 0" "e \<noteq> 0"
    and "\<bar>p\<bar> < 2 ^ 53" "\<bar>e\<bar> < 2 ^ 53"
  shows "cli_config_of
           [x, y, ''host='' @ h, ''port='' @ js_int_str p, ''crdsUrl='' @ js_int_str e] =
         \<lparr>cli_host = h, cli_port = JsFinite p, cli_server_expiry = JsFinite e\<rparr>"
proof -
  have "js_parse_int (js_int_str i) = JsFinite i" if "\<bar>i\<bar> < 2 ^ 53" for i
    using js_parse_int_append[of "[]" i] js_number_of_int_exact[OF that] by simp
  then show ?thesis
    using assms js_int_str_no_line_terminator[of p] js_int_str_no_line_terminator[of e]
    by (simp add: cli_config_of_def arg_match_def js_or_str_def js_or_num_def js_to_string_def)
qed

theorem cli_config_roundtrip_witness:
  "cli_config_of [''node'', ''index.js'', ''host=10.0.0.2'', ''port=8080'', ''crdsUrl=30000''] =
     \<lparr>cli_host = ''10.0.0.2'', cli_port = JsFinite 8080, cli_server_expiry = JsFinite 30000\<rparr>"
proof -
  have "cli_config_of [''node'', ''index.js'', ''host='' @ ''10.0.0.2'', ''port='' @ js_int_str 8080,
          ''crdsUrl='' @ js_int_str 30000] =
        \<lparr>cli_host = ''10.0.0.2'', cli_port = JsFinite 8080, cli_server_expiry = JsFinite 30000\<rparr>"
    by (rule cli_config_roundtrip) (simp_all add: is_line_terminator_def)
  then show ?thesis
    by (simp add: js_int_str_def nat_digits.simps digit_char_def)
qed

text \<open>
  C23. The expiry is read from the argument named \<open>crdsUrl\<close> (line 178): whatever
  else the command line says, for instance \<open>serverExpiry=1000\<close>, the store expires
  records after the default 60000 ms unless an argument starts with \<open>crdsUrl=\<close>.
\<close>

theorem cli_expiry_only_from_crdsUrl:
  "list_all (\<lambda>a. take 8 a \<noteq> ''crdsUrl='') (drop 2 argv) \<Longrightarrow>
   cli_server_expiry (cli_config_of argv) = JsFinite 60000"
proof -
  assume "list_all (\<lambda>a. take 8 a \<noteq> ''crdsUrl='') (drop 2 argv)"
  then have "find_arg ''crdsUrl'' (drop 2 argv) = None"
    using find_arg_absent[of "''crdsUrl''" "drop 2 argv"] by (simp add: numeral_eq_Suc)
  then show ?thesis
    by (simp add: cli_config_of_def Let_def js_to_string_def js_or_num_def server_expiry_default_def)
qed

theorem cli_expiry_only_from_crdsUrl_witness:
  "cli_server_expiry (cli_config_of [''node'', ''index.js'', ''serverExpiry=1000'', ''port=8080'']) = JsFinite 60000"
  by (rule cli_expiry_only_from_crdsUrl) simp

text \<open>
  C22. The host argument never reaches the socket: the CLI passes \<open>{host, port}\<close> but
  \<open>listen\<close> destructures \<open>hostname\<close>, so for every command line the server binds
  with \<open>hostname = null\<close> (every interface) and logs \<open>http://127.0.0.1:<port>\<close>.
\<close>

theorem cli_host_never_bound:
  "listen_bind (cli_listen_options (cli_config_of argv)) = (None, cli_port (cli_config_of argv)) \<and>
   listen_log (listen_bind (cli_listen_options (cli_config_of argv))) =
     ''http://127.0.0.1:'' @ js_number_str (cli_port (cli_config_of argv))"
  by (simp add: listen_bind_def cli_listen_options_def listen_log_def js_or_str_def)

text \<open>
  C27. What the store the command line builds does with its records: it never
  expires one exactly when the \<open>crdsUrl\<close> argument overflows to \<open>Infinity\<close> (309
  digits or more; \<open>||\<close> rules out 0), and it expires every record at once, so that
  no listing ever shows one, exactly when the argument is negative.
\<close>

theorem cli_store_expiry_extremes:
  "((\<forall>t w. \<not> lru_is_stale (servers_cache (cli_prsnt argv)) t w) \<longleftrightarrow>
      cli_server_expiry (cli_config_of argv) = JsInfinity False) \<and>
   ((\<forall>t w. w \<le> t \<longrightarrow> lru_is_stale (servers_cache (cli_prsnt argv)) t w) \<longleftrightarrow>
      cli_server_expiry (cli_config_of argv) = JsInfinity True \<or>
      (\<exists>n < 0. cli_server_expiry (cli_config_of argv) = JsFinite n))"
proof -
  let ?v = "cli_server_expiry (cli_config_of argv)"
  have truthy: "?v \<noteq> JsNaN \<and> ?v \<noteq> JsFinite 0"
    by (simp add: cli_config_of_def Let_def js_or_num_truthy server_expiry_default_def)
  have age: "lru_max_age (servers_cache (cli_prsnt argv)) = lru_max_age_of ?v"
    by (simp add: cli_prsnt_def)
  show ?thesis
    using truthy unfolding age lru_never_stale_iff lru_always_stale_iff
    by (cases ?v) (auto simp: lru_max_age_of_def age lru_never_stale_iff lru_always_stale_iff)
qed

theorem cli_store_expiry_extremes_witness:
  "lru_is_stale (servers_cache (cli_prsnt [''node'', ''index.js'', ''crdsUrl=-5''])) 1000 1000"
proof -
  have "cli_server_expiry (cli_config_of [''node'', ''index.js'', ''crdsUrl='' @ js_int_str (-5)]) = JsFinite (-5)"
    using js_parse_int_append[of "[]" "-5"] js_number_of_int_exact[of "-5"]
    by (simp add: cli_config_of_def arg_match_def js_or_num_def js_to_string_def is_line_terminator_def
        js_int_str_def nat_digits.simps digit_char_def)
  then have "cli_server_expiry (cli_config_of [''node'', ''index.js'', ''crdsUrl=-5'']) = JsFinite (-5)"
    by (simp add: js_int_str_def nat_digits.simps digit_char_def)
  then have "\<forall>t w. w \<le> t \<longrightarrow> lru_is_stale (servers_cache (cli_prsnt [''node'', ''index.js'', ''crdsUrl=-5''])) t w"
    using cli_store_expiry_extremes[of "[''node'', ''index.js'', ''crdsUrl=-5'']"] by auto
  then show ?thesis by simp
qed

section \<open>Starting the server\<close>

text \<open>
  C32. The error branch of the \<open>listen\<close> callback (line 152) is dead: whatever the
  arguments and whatever the operating system does, the callback never warns. A
  valid port either logs the address or, when binding fails, ends the process with
  an uncaught error; an invalid port is only warned about by the \<open>.catch\<close>.
\<close>

theorem listen_callback_never_warns:
  "listen_outcome b r \<noteq> CallbackWarn e \<and>
   (js_port_ok (snd b) \<longrightarrow>
      listen_outcome b BindOk = LogLine (listen_log b) \<and>
      listen_outcome b (BindFailed code) = UncaughtError code)"
  by (simp add: listen_outcome_def listen_callback_def split: bind_result.split)

theorem listen_callback_never_warns_witness:
  "listen_outcome (None, JsFinite 8000) (BindFailed ''EADDRINUSE'') \<noteq> CallbackWarn ''EADDRINUSE'' \<and>
   listen_outcome (None, JsFinite 8000) BindOk = LogLine ''http://127.0.0.1:8000'' \<and>
   listen_outcome (None, JsFinite 8000) (BindFailed ''EADDRINUSE'') = UncaughtError ''EADDRINUSE''"
proof -
  have "listen_outcome (None, JsFinite 8000) (BindFailed ''EADDRINUSE'') \<noteq> CallbackWarn ''EADDRINUSE'' \<and>
        (js_port_ok (snd (None :: string option, JsFinite 8000)) \<longrightarrow>
          listen_outcome (None, JsFinite 8000) BindOk = LogLine (listen_log (None, JsFinite 8000)) \<and>
          listen_outcome (None, JsFinite 8000) (BindFailed ''EADDRINUSE'') = UncaughtError ''EADDRINUSE'')"
    by (rule listen_callback_never_warns)
  then show ?thesis
    by (simp add: js_port_ok_def node_port_ok_def listen_log_def js_or_str_def js_number_str_def
        js_int_str_def nat_digits.simps digit_char_def)
qed

text \<open>
  C33. A command line with a port Node refuses (\<open>port=70000\<close>, \<open>port=-1\<close>) starts no
  server: \<open>listen\<close> throws before binding and the process only prints the warning
  of the \<open>.catch\<close>, whatever the operating system would have done.
\<close>

theorem cli_bad_port_starts_nothing:
  "\<not> js_port_ok (cli_port (cli_config_of argv)) \<Longrightarrow>
   listen_outcome (listen_bind (cli_listen_options (cli_config_of argv))) r = CatchWarn ''ERR_SOCKET_BAD_PORT''"
  by (simp add: listen_outcome_def listen_bind_def cli_listen_options_def)

theorem cli_bad_port_starts_nothing_witness:
  "listen_outcome (listen_bind (cli_listen_options (cli_config_of [''node'', ''index.js'', ''port=70000''])))
     BindOk = CatchWarn ''ERR_SOCKET_BAD_PORT''"
proof -
  have "cli_port (cli_config_of [''node'', ''index.js'', ''port='' @ js_int_str 70000]) = JsFinite 70000"
    using js_parse_int_append[of "[]" 70000] js_number_of_int_exact[of 70000]
    by (simp add: cli_config_of_def arg_match_def js_or_num_def js_to_string_def is_line_terminator_def
        js_int_str_def nat_digits.simps digit_char_def)
  then have "\<not> js_port_ok (cli_port (cli_config_of [''node'', ''index.js'', ''port=70000'']))"
    by (simp add: js_port_ok_def node_port_ok_def js_int_str_def nat_digits.simps digit_char_def)
  then show ?thesis by (rule cli_bad_port_starts_nothing)
qed

end
