(* ===== verification/System.thy ===== *)
theory System
  imports Registry
begin

text \<open>
  The running service: one \<open>Prsnt\<close> instance serving requests on a single thread
  (specification, section 5). Requests interleave only at the suspension point of
  the announce handler, the outbound probe: the synchronous part of an announcement
  runs at once, its probe stays in flight, and the event that settles it may come
  after any number of other requests, or never. The state records the registry, the
  clock, the probes in flight (request id and the \<open>server\<close> reference its handler
  captured) and the log of what was sent. The lemmas show that every reachable state
  satisfies the registry invariant, what the race between two announcements of
  the same url leaves behind, and that an announcement in flight is answered by the
  settling of its own probe and by nothing else.
\<close>

section \<open>Events and the step function\<close>

datatype sent = Responded nat http_response | Listed "server list"

datatype event =
    EvAnnounce nat json
  | EvProbe nat probe_event
  | EvList
  | EvTick time

record sys =
  sys_reg :: prsnt
  sys_clock :: time
  sys_inflight :: "(nat \<times> ref option) list"
  sys_log :: "sent list"

definition sys_init :: "int option \<Rightarrow> time \<Rightarrow> sys" where
  "sys_init server_expiry t0 =
     \<lparr>sys_reg = prsnt_new server_expiry, sys_clock = t0, sys_inflight = [], sys_log = []\<rparr>"

text \<open>
  One event: a new announcement (its id not in flight), the settling of an
  announcement's probe (its id in flight), a listing (\<open>GET /prsnt/servers.json\<close>,
  lines 54--58), or the clock advancing. \<open>None\<close>: the event cannot happen here.
\<close>

fun sys_step :: "sys \<Rightarrow> event \<Rightarrow> sys option" where
  "sys_step s (EvAnnounce rid j) =
     (if rid \<in> fst ` set (sys_inflight s) then None
      else case announce_begin (sys_clock s) j (sys_reg s) of
        (Rejected, r) \<Rightarrow>
          Some (s\<lparr>sys_reg := r, sys_log := sys_log s @ [Responded rid resp_bad_request]\<rparr>)
      | (Crashed, r) \<Rightarrow>
          Some (s\<lparr>sys_reg := r, sys_log := sys_log s @ [Responded rid resp_crash]\<rparr>)
      | (Probing srv req, r) \<Rightarrow>
          Some (s\<lparr>sys_reg := r, sys_inflight := (rid, srv) # sys_inflight s\<rparr>))"
| "sys_step s (EvProbe rid ev) =
     (case map_of (sys_inflight s) rid of
        None \<Rightarrow> None
      | Some srv \<Rightarrow>
          (case announce_settle srv ev (sys_reg s) of
             (resp, r) \<Rightarrow>
               Some (s\<lparr>sys_reg := r, sys_inflight := AList.delete rid (sys_inflight s),
                       sys_log := sys_log s @ [Responded rid resp]\<rparr>)))"
| "sys_step s EvList =
     (case get_servers (sys_clock s) (sys_reg s) of
        (xs, r) \<Rightarrow> Some (s\<lparr>sys_reg := r, sys_log := sys_log s @ [Listed xs]\<rparr>))"
| "sys_step s (EvTick d) = Some (s\<lparr>sys_clock := sys_clock s + d\<rparr>)"



fun sys_run :: "sys \<Rightarrow> event list \<Rightarrow> sys option" where
  "sys_run s [] = Some s"
| "sys_run s (e # es) = (case sys_step s e of None \<Rightarrow> None | Some s' \<Rightarrow> sys_run s' es)"

inductive reachable :: "sys \<Rightarrow> bool" where
  init: "reachable (sys_init e t0)"
| step: "reachable s \<Longrightarrow> sys_step s ev = Some s' \<Longrightarrow> reachable s'"

definition sys_inv :: "sys \<Rightarrow> bool" where
  "sys_inv s \<longleftrightarrow>
     reg_inv (sys_reg s) \<and> distinct (map fst (sys_inflight s)) \<and>
     (\<forall>rid r. (rid, Some r) \<in> set (sys_inflight s) \<longrightarrow> r < prsnt_lim (sys_reg s))"

section \<open>Steps\<close>

lemma sys_step_announce_probing:
  "rid \<notin> fst ` set (sys_inflight s) \<Longrightarrow>
   announce_begin (sys_clock s) j (sys_reg s) = (Probing srv req, r) \<Longrightarrow>
   sys_step s (EvAnnounce rid j) = Some (s\<lparr>sys_reg := r, sys_inflight := (rid, srv) # sys_inflight s\<rparr>)"
  by simp

lemma sys_step_probe:
  "map_of (sys_inflight s) rid = Some srv \<Longrightarrow>
   sys_step s (EvProbe rid ev) =
     Some (s\<lparr>sys_reg := snd (announce_settle srv ev (sys_reg s)),
             sys_inflight := AList.delete rid (sys_inflight s),
             sys_log := sys_log s @ [Responded rid (fst (announce_settle srv ev (sys_reg s)))]\<rparr>)"
  by (simp add: prod.case_eq_if)

fun_cases sys_step_probeE: "sys_step s (EvProbe rid ev) = Some s'"

lemma sys_step_probe_inflight:
  "sys_step s (EvProbe rid ev) = Some s' \<Longrightarrow> rid \<in> fst ` set (sys_inflight s)"
  by (erule sys_step_probeE) (force dest: map_of_SomeD split: option.splits)

lemma prsnt_lim_mono_begin: "prsnt_lim r \<le> prsnt_lim (snd (announce_begin now j r))"
  by (simp add: announce_begin_def register_public_lim prod.case_eq_if split: option.split)

lemma begin_probing_ref:
  assumes "announce_begin now j r = (Probing srv req, r')"
  shows "\<forall>x. srv = Some x \<longrightarrow> x < prsnt_lim r'"
proof -
  obtain a where dec: "decode_announce j = Some a"
    using assms by (cases "decode_announce j") (auto simp: announce_begin_def)
  with assms have "srv = fst (register_public now a r)" and "r' = snd (register_public now a r)"
    by (auto simp: announce_begin_valid split: if_splits)
  then show ?thesis
    by (cases "a_visibility a") (simp_all add: register_public_public register_public_private register_public_lim)
qed

lemma prsnt_lim_get_servers [simp]: "prsnt_lim (snd (get_servers now r)) = prsnt_lim r"
  by (simp add: get_servers_frame)

section \<open>The invariant of the running service\<close>

lemma sys_inv_init: "sys_inv (sys_init e t0)"
  by (simp add: sys_inv_def sys_init_def reg_inv_new)

lemma sys_step_inv:
  assumes inv: "sys_inv s" and st: "sys_step s ev = Some s'"
  shows "sys_inv s'"
proof (cases ev)
  case (EvAnnounce rid j)
  obtain res r where b: "announce_begin (sys_clock s) j (sys_reg s) = (res, r)" by fastforce
  have reg: "reg_inv r" using inv b reg_inv_announce_begin[of "sys_reg s" "sys_clock s" j]
    by (simp add: sys_inv_def)
  have "prsnt_lim (sys_reg s) \<le> prsnt_lim r"
    using b prsnt_lim_mono_begin[of "sys_reg s" "sys_clock s" j] by simp
  with inv have mono: "\<forall>rid x. (rid, Some x) \<in> set (sys_inflight s) \<longrightarrow> x < prsnt_lim r"
    by (auto simp: sys_inv_def intro: less_le_trans)
  show ?thesis
  proof (cases res)
    case (Probing srv req)
    with b have "\<forall>x. srv = Some x \<longrightarrow> x < prsnt_lim r" by (simp add: begin_probing_ref)
    with EvAnnounce Probing b st inv reg mono show ?thesis
      by (auto simp: sys_inv_def split: if_splits)
  qed (use EvAnnounce b st inv reg mono in \<open>auto simp: sys_inv_def split: if_splits\<close>)
next
  case (EvProbe rid ev')
  then obtain srv where srv: "map_of (sys_inflight s) rid = Some srv"
    using st by (cases "map_of (sys_inflight s) rid") auto
  with EvProbe st have "s' = s\<lparr>sys_reg := snd (announce_settle srv ev' (sys_reg s)),
             sys_inflight := AList.delete rid (sys_inflight s),
             sys_log := sys_log s @ [Responded rid (fst (announce_settle srv ev' (sys_reg s)))]\<rparr>"
    by (simp add: prod.case_eq_if)
  with inv show ?thesis
    by (auto simp: sys_inv_def reg_inv_announce_settle)
next
  case EvList
  with st have "s' = s\<lparr>sys_reg := snd (get_servers (sys_clock s) (sys_reg s)),
      sys_log := sys_log s @ [Listed (fst (get_servers (sys_clock s) (sys_reg s)))]\<rparr>"
    by (simp add: prod.case_eq_if)
  with inv show ?thesis by (simp add: sys_inv_def reg_inv_get_servers)
next
  case (EvTick d)
  with st inv show ?thesis by (auto simp: sys_inv_def)
qed

lemma reachable_imp_sys_inv: "reachable s \<Longrightarrow> sys_inv s"
proof (induction rule: reachable.induct)
  case (init e t0)
  show ?case by (rule sys_inv_init)
next
  case (step s ev s')
  then show ?case by (blast intro: sys_step_inv)
qed

section \<open>Two announcements of the same url\<close>

lemma view_set_online_other:
  "lru_abs t (servers_cache r) u \<noteq> Some x \<Longrightarrow>
   registry_view t (set_online x b r) u = registry_view t r u"
  by (simp add: view_set_online)

lemma sys_step_announce_public:
  assumes "decode_announce j = Some a" "a_visibility a = Public" "node_port_ok (a_port a)"
    and "rid \<notin> fst ` set (sys_inflight s)"
  shows "sys_step s (EvAnnounce rid j) =
           Some (s\<lparr>sys_reg := snd (register_public (sys_clock s) a (sys_reg s)),
                   sys_inflight := (rid, Some (prsnt_lim (sys_reg s))) # sys_inflight s\<rparr>)"
  using assms by (simp add: announce_begin_valid register_public_public)

lemma race_states:
  assumes d1: "decode_announce j1 = Some a1" and d2: "decode_announce j2 = Some a2"
    and pub: "a_visibility a1 = Public" "a_visibility a2 = Public"
    and ports: "node_port_ok (a_port a1)" "node_port_ok (a_port a2)"
    and ids: "r1 \<notin> fst ` set (sys_inflight s)" "r2 \<notin> fst ` set (sys_inflight s)" "r1 \<noteq> r2"
  defines "R1 \<equiv> snd (register_public (sys_clock s) a1 (sys_reg s))"
  defines "R2 \<equiv> snd (register_public (sys_clock s) a2 R1)"
  shows "sys_run s [EvAnnounce r1 j1, EvAnnounce r2 j2, EvProbe r2 ev2, EvProbe r1 ev1] =
           Some (s\<lparr>sys_reg := set_online (prsnt_lim (sys_reg s)) (fst (on_probe_event ev1))
                                (set_online (prsnt_lim R1) (fst (on_probe_event ev2)) R2),
                   sys_log := sys_log s @ [Responded r2 (snd (on_probe_event ev2)),
                                           Responded r1 (snd (on_probe_event ev1))]\<rparr>)"
    and "sys_run s [EvAnnounce r1 j1, EvAnnounce r2 j2, EvProbe r1 ev1, EvProbe r2 ev2] =
           Some (s\<lparr>sys_reg := set_online (prsnt_lim R1) (fst (on_probe_event ev2))
                                (set_online (prsnt_lim (sys_reg s)) (fst (on_probe_event ev1)) R2),
                   sys_log := sys_log s @ [Responded r1 (snd (on_probe_event ev1)),
                                           Responded r2 (snd (on_probe_event ev2))]\<rparr>)"
proof -
  have keep: "AList.delete r1 (sys_inflight s) = sys_inflight s"
    "AList.delete r2 (sys_inflight s) = sys_inflight s"
    using ids by (simp_all add: AList.delete_id)
  show "sys_run s [EvAnnounce r1 j1, EvAnnounce r2 j2, EvProbe r2 ev2, EvProbe r1 ev1] =
           Some (s\<lparr>sys_reg := set_online (prsnt_lim (sys_reg s)) (fst (on_probe_event ev1))
                                (set_online (prsnt_lim R1) (fst (on_probe_event ev2)) R2),
                   sys_log := sys_log s @ [Responded r2 (snd (on_probe_event ev2)),
                                           Responded r1 (snd (on_probe_event ev1))]\<rparr>)"
    using assms keep
    by (simp add: sys_step_announce_public sys_step_probe announce_settle_eq
        register_public_lim case_prod_beta del: sys_step.simps(1))
  show "sys_run s [EvAnnounce r1 j1, EvAnnounce r2 j2, EvProbe r1 ev1, EvProbe r2 ev2] =
           Some (s\<lparr>sys_reg := set_online (prsnt_lim R1) (fst (on_probe_event ev2))
                                (set_online (prsnt_lim (sys_reg s)) (fst (on_probe_event ev1)) R2),
                   sys_log := sys_log s @ [Responded r1 (snd (on_probe_event ev1)),
                                           Responded r2 (snd (on_probe_event ev2))]\<rparr>)"
    using assms keep
    by (simp add: sys_step_announce_public sys_step_probe announce_settle_eq
        register_public_lim case_prod_beta del: sys_step.simps(1))
qed

section \<open>Events that do not settle a request\<close>


section \<open>Properties of the running service\<close>

text \<open>
  C3. Every state the service can reach satisfies the registry invariant: cache keys
  are distinct, every entry references an allocated server object whose \<open>url\<close> is
  the key and whose \<open>timestamp\<close> is the entry's write time, nothing is allocated
  beyond the limit, and every probe in flight holds a reference to an allocated
  object.
\<close>

theorem reachable_invariant:
  assumes "reachable s"
  shows "distinct (lru_keys (servers_cache (sys_reg s))) \<and>
         (\<forall>k r w. (k, (r, w)) \<in> set (lru_entries (servers_cache (sys_reg s))) \<longrightarrow>
            (\<exists>obj. prsnt_heap (sys_reg s) r = Some obj \<and> url obj = k \<and> timestamp obj = w)) \<and>
         (\<forall>rid r. (rid, Some r) \<in> set (sys_inflight s) \<longrightarrow> prsnt_heap (sys_reg s) r \<noteq> None)"
proof -
  have "sys_inv s" using assms by (rule reachable_imp_sys_inv)
  then show ?thesis
    by (auto simp: sys_inv_def reg_inv_def lru_wf_def)
qed

theorem reachable_invariant_witness:
  "distinct (lru_keys (servers_cache (sys_reg (sys_init None 0))))"
  using reachable_invariant[OF reachable.init[of None 0]] by blast

text \<open>
  C9. In every reachable state a listing holds at most one record per url: the
  registry never shows two records for the same identity.
\<close>

theorem reachable_listing_one_per_url:
  "reachable s \<Longrightarrow> distinct (map url (fst (get_servers t (sys_reg s))))"
proof -
  assume "reachable s"
  then have "sys_inv s" by (rule reachable_imp_sys_inv)
  then show ?thesis by (simp add: sys_inv_def get_servers_distinct_url)
qed

theorem reachable_listing_one_per_url_witness:
  "distinct (map url (fst (get_servers 7 (sys_reg (sys_init None 0)))))"
  by (rule reachable_listing_one_per_url[OF reachable.init])

text \<open>
  C2. The race between two announcements of the same url, both in flight at once:
  whichever order their probes settle in, the stored record is the second
  announcement's, and its \<open>online\<close> flag is the outcome of the second
  announcement's probe. The first probe writes to the object the cache no longer
  holds, so its outcome is lost even when it settles last.
\<close>

theorem race_last_writer_probe_wins:
  assumes d1: "decode_announce j1 = Some a1" and d2: "decode_announce j2 = Some a2"
    and pub: "a_visibility a1 = Public" "a_visibility a2 = Public"
    and same: "url_of a1 = url_of a2"
    and ports: "node_port_ok (a_port a1)" "node_port_ok (a_port a2)"
    and ids: "r1 \<notin> fst ` set (sys_inflight s)" "r2 \<notin> fst ` set (sys_inflight s)" "r1 \<noteq> r2"
    and age: "0 < lru_max_age (servers_cache (sys_reg s))"
  shows "\<exists>s1 s2.
           sys_run s [EvAnnounce r1 j1, EvAnnounce r2 j2, EvProbe r2 ev2, EvProbe r1 ev1] = Some s1 \<and>
           sys_run s [EvAnnounce r1 j1, EvAnnounce r2 j2, EvProbe r1 ev1, EvProbe r2 ev2] = Some s2 \<and>
           registry_view (sys_clock s) (sys_reg s1) (url_of a1) =
             Some (new_server a2 (url_of a2) (sys_clock s) (classify ev2 = Live)) \<and>
           registry_view (sys_clock s) (sys_reg s2) (url_of a1) =
             Some (new_server a2 (url_of a2) (sys_clock s) (classify ev2 = Live))"
proof -
  let ?t = "sys_clock s" and ?u = "url_of a2"
  let ?R1 = "snd (register_public ?t a1 (sys_reg s))"
  let ?R2 = "snd (register_public ?t a2 ?R1)"
  have lim1: "prsnt_lim ?R1 = Suc (prsnt_lim (sys_reg s))"
    using pub by (simp add: register_public_lim)
  have hit: "lru_abs ?t (servers_cache ?R2) ?u = Some (prsnt_lim ?R1)"
    using pub age by (simp add: register_public_cache lru_abs_set_same lru_stale_at_write)
  have view2: "registry_view ?t ?R2 ?u = Some (new_server a2 ?u ?t (seed_online ?t ?R1 ?u))"
    using pub age by (simp add: view_register_public_now)
  have a: "registry_view ?t (set_online (prsnt_lim (sys_reg s)) b1
             (set_online (prsnt_lim ?R1) (fst (on_probe_event ev2)) ?R2)) ?u =
           Some (new_server a2 ?u ?t (classify ev2 = Live))" for b1
    using hit view2 lim1 by (simp add: view_set_online on_probe_event_online)
  have b: "registry_view ?t (set_online (prsnt_lim ?R1) (fst (on_probe_event ev2))
             (set_online (prsnt_lim (sys_reg s)) b1 ?R2)) ?u =
           Some (new_server a2 ?u ?t (classify ev2 = Live))" for b1
    using hit view2 lim1 by (simp add: view_set_online on_probe_event_online)
  show ?thesis
    using race_states[OF d1 d2 pub ports ids] a b same by (simp del: sys_run.simps)
qed

theorem race_last_writer_probe_wins_witness:
  "registry_view 0 (sys_reg (the (sys_run (sys_init None 0)
      [EvAnnounce 1 example_payload,
       EvAnnounce 2 (JObj [(''name'', JStr ''b''), (''protocol'', JStr ''http''), (''address'', JStr ''1.2.3.4''),
                          (''port'', JNum 80), (''visibility'', JStr ''public''), (''users'', JArr [])]),
       EvProbe 2 ProbeTimeout, EvProbe 1 (ProbeResponse 200)]))) ''http://1.2.3.4:80'' =
   Some \<lparr>name = ''b'', url = ''http://1.2.3.4:80'', protocol = ''http'', address = ''1.2.3.4'',
         port = 80, users = [], timestamp = 0, online = False\<rparr>"
proof -
  let ?j2 = "JObj [(''name'', JStr ''b''), (''protocol'', JStr ''http''), (''address'', JStr ''1.2.3.4''),
                   (''port'', JNum 80), (''visibility'', JStr ''public''), (''users'', JArr [])]"
  let ?a2 = "\<lparr>a_name = ''b'', a_protocol = ''http'', a_address = ''1.2.3.4'', a_port = 80,
              a_users = [], a_visibility = Public\<rparr>"
  have d2: "decode_announce ?j2 = Some ?a2"
    by (simp add: decode_announce_def valid_payload_def is_valid_protocol_def is_valid_address_def
        is_digit_def is_valid_visibility_def users_of_def)
  have "\<exists>s1 s2.
           sys_run (sys_init None 0) [EvAnnounce 1 example_payload, EvAnnounce 2 ?j2, EvProbe 2 ProbeTimeout,
             EvProbe 1 (ProbeResponse 200)] = Some s1 \<and>
           sys_run (sys_init None 0) [EvAnnounce 1 example_payload, EvAnnounce 2 ?j2,
             EvProbe 1 (ProbeResponse 200), EvProbe 2 ProbeTimeout] = Some s2 \<and>
           registry_view (sys_clock (sys_init None 0)) (sys_reg s1) ''http://1.2.3.4:80'' =
             Some (new_server ?a2 ''http://1.2.3.4:80'' (sys_clock (sys_init None 0)) (classify ProbeTimeout = Live)) \<and>
           registry_view (sys_clock (sys_init None 0)) (sys_reg s2) ''http://1.2.3.4:80'' =
             Some (new_server ?a2 ''http://1.2.3.4:80'' (sys_clock (sys_init None 0)) (classify ProbeTimeout = Live))"
    using race_last_writer_probe_wins[OF decode_example_payload d2, of 1 "sys_init None 0" 2 ProbeTimeout "ProbeResponse 200"]
    by (simp add: url_of_example node_port_ok_def sys_init_def server_expiry_default_def)
  then show ?thesis
    by (auto simp: new_server_def sys_init_def)
qed



end
