(* ===== verification/Http.thy ===== *)
theory Http
  imports System
begin

text \<open>
  The HTTP layer of \<open>src/index.js\<close> (lines 46--60): the \<open>cors\<close> middleware, the two
  routes and the headers they set, and how a request reaches the handlers of theory
  \<open>System\<close>. Express's own behaviour is modelled from its documentation: routes
  match case-insensitively with an optional trailing slash, a \<open>GET\<close> route also
  answers \<open>HEAD\<close>, an \<open>OPTIONS\<close> request to a routed path without an \<open>OPTIONS\<close>
  handler is answered automatically with the allowed methods, and \<open>res.set\<close>
  stores \<open>String(value)\<close>, replacing an earlier value of the same header. The
  lemmas give the CORS headers each route sends.
\<close>

section \<open>Requests, headers and routes\<close>

record http_request =
  rq_method :: string
  rq_path :: string
  rq_origin :: "string option"

type_synonym headers = "(string \<times> string) list"

text \<open>\<open>res.set(field, value)\<close>.\<close>

definition res_set :: "string \<Rightarrow> string \<Rightarrow> headers \<Rightarrow> headers" where
  "res_set field v hs = AList.update field v hs"

text \<open>\<open>String(v)\<close> of \<open>req.get('Origin')\<close>: an absent header is \<open>undefined\<close>.\<close>

definition js_string_of_header :: "string option \<Rightarrow> string" where
  "js_string_of_header v = (case v of None \<Rightarrow> ''undefined'' | Some s \<Rightarrow> s)"

text \<open>Lines 46--52: the \<open>cors\<close> middleware.\<close>

definition cors :: "http_request \<Rightarrow> headers \<Rightarrow> headers" where
  "cors req hs =
     res_set ''Access-Control-Allow-Credentials'' ''true''
       (res_set ''Access-Control-Allow-Headers'' ''Content-Type''
         (res_set ''Access-Control-Allow-Origin'' (js_string_of_header (rq_origin req)) hs))"

definition ascii_lower :: "char \<Rightarrow> char" where
  "ascii_lower c =
     (case map_of (zip ''ABCDEFGHIJKLMNOPQRSTUVWXYZ'' ''abcdefghijklmnopqrstuvwxyz'') c of
        None \<Rightarrow> c
      | Some l \<Rightarrow> l)"

text \<open>Express's default path matching: case-insensitive, trailing slash optional.\<close>

definition path_matches :: "string \<Rightarrow> string \<Rightarrow> bool" where
  "path_matches route p \<longleftrightarrow> map ascii_lower p = route \<or> map ascii_lower p = route @ ''/''"

datatype route = RouteServers | RouteAnnounce | RouteAutoOptions string | RouteNotFound

text \<open>Lines 54 and 59: \<open>app.get('/prsnt/servers.json', \<dots>)\<close> and
  \<open>app.post('/prsnt/announce', \<dots>)\<close>, with Express's automatic \<open>OPTIONS\<close> answer.\<close>

definition route_of :: "http_request \<Rightarrow> route" where
  "route_of req =
     (if path_matches ''/prsnt/servers.json'' (rq_path req) then
        (if rq_method req = ''GET'' \<or> rq_method req = ''HEAD'' then RouteServers
         else if rq_method req = ''OPTIONS'' then RouteAutoOptions ''GET,HEAD''
         else RouteNotFound)
      else if path_matches ''/prsnt/announce'' (rq_path req) then
        (if rq_method req = ''POST'' then RouteAnnounce
         else if rq_method req = ''OPTIONS'' then RouteAutoOptions ''POST''
         else RouteNotFound)
      else RouteNotFound)"

text \<open>The headers each route sets before its handler answers (line 55 overrides the
  middleware's origin on the listing).\<close>

definition route_headers :: "http_request \<Rightarrow> headers" where
  "route_headers req =
     (case route_of req of
        RouteServers \<Rightarrow> res_set ''Access-Control-Allow-Origin'' ''*'' (cors req [])
      | RouteAnnounce \<Rightarrow> cors req []
      | RouteAutoOptions allow \<Rightarrow> [(''Allow'', allow)]
      | RouteNotFound \<Rightarrow> [])"

text \<open>A request that reaches a handler becomes an event of the running service; the
  body is the value \<open>bodyParser.json()\<close> parsed.\<close>

definition route_event :: "nat \<Rightarrow> http_request \<Rightarrow> json \<Rightarrow> event option" where
  "route_event rid req body =
     (case route_of req of
        RouteServers \<Rightarrow> Some EvList
      | RouteAnnounce \<Rightarrow> Some (EvAnnounce rid body)
      | _ \<Rightarrow> None)"

definition cors_header :: "http_request \<Rightarrow> string \<Rightarrow> string option" where
  "cors_header req field = map_of (route_headers req) field"

section \<open>Lemmas\<close>

lemma map_of_res_set [simp]: "map_of (res_set f v hs) = (map_of hs)(f \<mapsto> v)"
  by (simp add: res_set_def update_conv')

lemma route_of_announce_path:
  "path_matches ''/prsnt/announce'' p \<Longrightarrow>
   route_of \<lparr>rq_method = m, rq_path = p, rq_origin = org\<rparr> =
     (if m = ''POST'' then RouteAnnounce else if m = ''OPTIONS'' then RouteAutoOptions ''POST'' else RouteNotFound)"
  by (auto simp: route_of_def path_matches_def)

text \<open>
  C30. The listing route sends \<open>Access-Control-Allow-Origin: *\<close> together with the
  middleware's \<open>Access-Control-Allow-Credentials: true\<close>, a combination browsers
  refuse for credentialed requests.
\<close>

theorem listing_wildcard_with_credentials:
  "route_of req = RouteServers \<Longrightarrow>
   cors_header req ''Access-Control-Allow-Origin'' = Some ''*'' \<and>
   cors_header req ''Access-Control-Allow-Credentials'' = Some ''true''"
  by (simp add: cors_header_def route_headers_def cors_def)

theorem listing_wildcard_with_credentials_witness:
  "cors_header \<lparr>rq_method = ''GET'', rq_path = ''/prsnt/servers.json'', rq_origin = Some ''https://a.example''\<rparr>
     ''Access-Control-Allow-Origin'' = Some ''*'' \<and>
   cors_header \<lparr>rq_method = ''GET'', rq_path = ''/prsnt/servers.json'', rq_origin = Some ''https://a.example''\<rparr>
     ''Access-Control-Allow-Credentials'' = Some ''true''"
  by (rule listing_wildcard_with_credentials) (simp add: route_of_def path_matches_def ascii_lower_def)

text \<open>
  C31. An announcement answers with the request's own origin, whatever it is, and
  with credentials allowed; without an \<open>Origin\<close> header the allowed origin is the
  literal string \<open>undefined\<close>.
\<close>

theorem announce_reflects_origin:
  "route_of req = RouteAnnounce \<Longrightarrow>
   cors_header req ''Access-Control-Allow-Origin'' =
     Some (case rq_origin req of None \<Rightarrow> ''undefined'' | Some org \<Rightarrow> org) \<and>
   cors_header req ''Access-Control-Allow-Credentials'' = Some ''true''"
  by (simp add: cors_header_def route_headers_def cors_def js_string_of_header_def)

theorem announce_reflects_origin_witness:
  "cors_header \<lparr>rq_method = ''POST'', rq_path = ''/prsnt/announce'', rq_origin = None\<rparr>
     ''Access-Control-Allow-Origin'' = Some ''undefined'' \<and>
   cors_header \<lparr>rq_method = ''POST'', rq_path = ''/prsnt/announce'', rq_origin = None\<rparr>
     ''Access-Control-Allow-Credentials'' = Some ''true''"
  using announce_reflects_origin[of "\<lparr>rq_method = ''POST'', rq_path = ''/prsnt/announce'', rq_origin = None\<rparr>"]
  by (simp add: route_of_def path_matches_def ascii_lower_def)

text \<open>
  C29. The preflight a browser sends before a cross-origin JSON announcement
  (\<open>OPTIONS /prsnt/announce\<close>) is answered by Express without any CORS header: the
  middleware runs only on the \<open>GET\<close> and \<open>POST\<close> routes. The request never becomes
  an event of the service.
\<close>

theorem announce_preflight_without_cors:
  "path_matches ''/prsnt/announce'' p \<Longrightarrow>
   cors_header \<lparr>rq_method = ''OPTIONS'', rq_path = p, rq_origin = org\<rparr> ''Access-Control-Allow-Origin'' = None \<and>
   route_event rid \<lparr>rq_method = ''OPTIONS'', rq_path = p, rq_origin = org\<rparr> body = None"
  by (simp add: cors_header_def route_headers_def route_event_def route_of_announce_path)

theorem announce_preflight_without_cors_witness:
  "cors_header \<lparr>rq_method = ''OPTIONS'', rq_path = ''/PRSNT/announce/'', rq_origin = Some ''https://a.example''\<rparr>
     ''Access-Control-Allow-Origin'' = None \<and>
   route_event 1 \<lparr>rq_method = ''OPTIONS'', rq_path = ''/PRSNT/announce/'', rq_origin = Some ''https://a.example''\<rparr>
     example_payload = None"
  by (rule announce_preflight_without_cors) (simp add: path_matches_def ascii_lower_def)

end
