(* ===== verification/Wellformed.thy ===== *)
theory Wellformed
  imports System
begin

text \<open>
  Well-formedness of the stored records. A \<open>Server\<close> object is built only from an
  announcement that passed the guard of lines 66--73, with the url key of line 79,
  and afterwards only its \<open>online\<close> flag is written. So every object on the heap of
  a reachable state has a valid protocol and address and a url that is
  \<open>protocol://address:port\<close> of its own fields; in particular the key parses back
  into the fields (theory \<open>Payload\<close>). The proof follows the type-preservation
  pattern: the predicate holds initially and each operation of the registry keeps
  it; every step of the service changes the registry through these operations only.
\<close>

section \<open>The predicates\<close>

definition server_wf :: "server \<Rightarrow> bool" where
  "server_wf x \<longleftrightarrow>
     is_valid_protocol (protocol x) \<and> is_valid_address (address x) \<and>
     url x = make_url (protocol x) (address x) (port x)"

definition heap_wf :: "prsnt \<Rightarrow> bool" where
  "heap_wf s \<longleftrightarrow> (\<forall>r x. prsnt_heap s r = Some x \<longrightarrow> server_wf x)"

section \<open>Preservation by the operations of the registry\<close>

lemma decode_announce_valid:
  "decode_announce j = Some a \<Longrightarrow> is_valid_protocol (a_protocol a) \<and> is_valid_address (a_address a)"
  by (auto simp: decode_announce_def valid_payload_def split: if_splits)

lemma server_wf_new_server:
  "decode_announce j = Some a \<Longrightarrow> server_wf (new_server a (url_of a) now b)"
  by (simp add: server_wf_def new_server_def url_of_def decode_announce_valid)

lemma heap_wf_new [inv_intros]: "heap_wf (prsnt_new e)"
  by (simp add: heap_wf_def prsnt_new_def)

lemma heap_wf_set_online [inv_intros]: "heap_wf s \<Longrightarrow> heap_wf (set_online r b s)"
  by (auto simp: heap_wf_def set_online_def server_wf_def)

lemma heap_wf_announce_begin [inv_intros]:
  "heap_wf s \<Longrightarrow> heap_wf (snd (announce_begin now j s))"
proof (cases "decode_announce j")
  case (Some a)
  assume wf: "heap_wf s"
  show ?thesis
  proof (cases "a_visibility a")
    case Public
    with Some wf show ?thesis
      by (auto simp: announce_begin_valid register_public_heap heap_wf_def server_wf_new_server)
  next
    case Private
    with Some wf show ?thesis by (simp add: announce_begin_valid register_public_private)
  qed
qed (simp add: announce_begin_def)

lemma heap_wf_announce_settle [inv_intros]:
  "heap_wf s \<Longrightarrow> heap_wf (snd (announce_settle srv ev s))"
  by (simp add: announce_settle_eq heap_wf_set_online split: option.split)

lemma heap_wf_get_servers [inv_intros]: "heap_wf s \<Longrightarrow> heap_wf (snd (get_servers now s))"
  by (simp add: heap_wf_def get_servers_frame)

section \<open>Preservation by the steps of the service\<close>

text \<open>What a step does to the registry: nothing, or one of the three operations.\<close>

lemma sys_step_reg:
  assumes "sys_step s e = Some s'"
  shows "sys_reg s' = sys_reg s \<or>
         (\<exists>j. sys_reg s' = snd (announce_begin (sys_clock s) j (sys_reg s))) \<or>
         (\<exists>srv ev. sys_reg s' = snd (announce_settle srv ev (sys_reg s))) \<or>
         sys_reg s' = snd (get_servers (sys_clock s) (sys_reg s))"
  using assms
  by (cases e) (fastforce simp: prod.case_eq_if split: if_splits begin_result.splits option.splits)+

lemma reachable_heap_wf: "reachable s \<Longrightarrow> heap_wf (sys_reg s)"
proof (induction rule: reachable.induct)
  case (init e t0)
  then show ?case by (simp add: sys_init_def heap_wf_new)
next
  case (step s ev s')
  then show ?case using sys_step_reg[OF step.hyps(2)] by (auto intro: inv_intros)
qed

lemma server_wf_url_parses:
  "server_wf x \<Longrightarrow> parse_url (url x) = Some (protocol x, address x, port x)"
  by (simp add: server_wf_def parse_url_make_url valid_endpoint_no_colon)

lemma get_servers_heap_obj:
  "x \<in> set (fst (get_servers now s)) \<Longrightarrow> \<exists>r. prsnt_heap s r = Some x"
  by (auto simp: set_get_servers ran_def registry_view_def bind_eq_Some_conv)

section \<open>Every listed record is well-formed\<close>

text \<open>
  C11. In every reachable state every record a listing shows is well-formed: its
  protocol and address pass the validators, its url is \<open>protocol://address:port\<close>
  of its own fields, and that url parses back into them.
\<close>

theorem reachable_listing_wellformed:
  "reachable s \<Longrightarrow>
   list_all (\<lambda>x. server_wf x \<and> parse_url (url x) = Some (protocol x, address x, port x))
     (fst (get_servers t (sys_reg s)))"
proof -
  assume "reachable s"
  then have "heap_wf (sys_reg s)" by (rule reachable_heap_wf)
  then show ?thesis
    by (auto simp: list_all_iff heap_wf_def server_wf_url_parses dest: get_servers_heap_obj)
qed

theorem reachable_listing_wellformed_witness:
  "list_all (\<lambda>x. server_wf x \<and> parse_url (url x) = Some (protocol x, address x, port x))
     (fst (get_servers 0 (sys_reg (the (sys_step (sys_init None 0) (EvAnnounce 1 example_payload))))))"
proof -
  have st: "sys_step (sys_init None 0) (EvAnnounce 1 example_payload) =
            Some (the (sys_step (sys_init None 0) (EvAnnounce 1 example_payload)))"
    by (simp add: sys_init_def announce_begin_valid decode_example_payload node_port_ok_def
        prod.case_eq_if)
  show ?thesis
    using reachable_listing_wellformed[OF reachable.step[OF reachable.init st]] .
qed

end
