(* ===== verification/Service.thy ===== *)
theory Service
  imports Http Wellformed
begin

text \<open>
  The service as a client sees it: an HTTP request is routed (theory \<open>Http\<close>), the
  announce route's body goes through \<open>bodyParser.json()\<close>, and what reaches a
  handler becomes a step of the running service (theory \<open>System\<close>); the listing and
  the hard-error answer are serialised by \<open>res.json\<close>. \<open>body-parser\<close> is library
  code, modelled from its documentation: a request that is not JSON (or has an empty
  body) leaves \<open>req.body\<close> as \<open>{}\<close>; malformed JSON, and in its default strict mode
  a JSON text whose top level is neither an object nor an array, is answered 400 by
  Express's error handler before the route's handler runs.
\<close>

section \<open>The body parser\<close>

datatype body_in = BodyAbsent | BodyMalformed | BodyParsed json

definition strict_json_root :: "json \<Rightarrow> bool" where
  "strict_json_root j = (case j of JObj _ \<Rightarrow> True | JArr _ \<Rightarrow> True | _ \<Rightarrow> False)"

definition resp_parse_error :: http_response where
  "resp_parse_error = \<lparr>resp_status = 400, resp_body = BodyErrorPage\<rparr>"

text \<open>Line 59, \<open>bodyParserJson\<close> (line 6): the parsed body or the error answer.\<close>

definition parse_json_body :: "body_in \<Rightarrow> http_response + json" where
  "parse_json_body b =
     (case b of
        BodyAbsent \<Rightarrow> Inr (JObj [])
      | BodyMalformed \<Rightarrow> Inl resp_parse_error
      | BodyParsed j \<Rightarrow> if strict_json_root j then Inr j else Inl resp_parse_error)"

section \<open>Serving a request\<close>

text \<open>
  Lines 53--59: the listing route runs \<open>getServers\<close>; the announce route runs the
  body parser, then the handler; an \<open>OPTIONS\<close> or unknown request is answered by
  Express (headers in \<open>route_headers\<close>) without touching the service. An answer
  sent without the handler is logged like the handler's.
\<close>

definition serve :: "nat \<Rightarrow> http_request \<Rightarrow> body_in \<Rightarrow> sys \<Rightarrow> sys option" where
  "serve rid req b s =
     (case route_of req of
        RouteServers \<Rightarrow> sys_step s EvList
      | RouteAnnounce \<Rightarrow>
          (case parse_json_body b of
             Inl resp \<Rightarrow> Some (s\<lparr>sys_log := sys_log s @ [Responded rid resp]\<rparr>)
           | Inr j \<Rightarrow> sys_step s (EvAnnounce rid j))
      | _ \<Rightarrow> Some s)"

section \<open>What \<open>res.json\<close> sends\<close>

text \<open>A \<open>Server\<close> object (lines 33--44) as \<open>JSON.stringify\<close> writes it: its own
  properties in the order the constructor assigns them.\<close>

definition server_json :: "server \<Rightarrow> json" where
  "server_json x =
     JObj [(''name'', JStr (name x)), (''url'', JStr (url x)), (''protocol'', JStr (protocol x)),
           (''address'', JStr (address x)), (''port'', JNum (port x)),
           (''users'', JArr (map JStr (users x))), (''timestamp'', JNum (int (timestamp x))),
           (''online'', JBool (online x))]"

text \<open>Line 57, \<open>res.json(this.getServers())\<close>, and lines 125--127,
  \<open>res.json({error: err.stack})\<close>; the other answers have no JSON body.\<close>

fun sent_json :: "sent \<Rightarrow> json option" where
  "sent_json (Listed xs) = Some (JArr (map server_json xs))"
| "sent_json (Responded rid r) =
     (case resp_body r of BodyJsonError st \<Rightarrow> Some (JObj [(''error'', JStr st)]) | _ \<Rightarrow> None)"

section \<open>Lemmas\<close>

lemma parse_json_body_object:
  "parse_json_body b = Inr j \<Longrightarrow> (\<forall>kvs. b \<noteq> BodyParsed (JObj kvs)) \<Longrightarrow> \<not> valid_payload j"
  by (auto simp: parse_json_body_def strict_json_root_def valid_payload_def
      split: body_in.splits json.splits if_splits)

lemma fetch_keys_abs_later:
  "now \<le> t \<Longrightarrow> lru_abs t (servers_cache (snd (fetch_keys now ks s))) = lru_abs t (servers_cache s)"
proof (induction ks arbitrary: s)
  case (Cons k ks)
  then show ?case
    by (simp add: prod.case_eq_if cache_get_def lru_abs_get_later)
qed simp

lemma get_servers_view_later:
  "now \<le> t \<Longrightarrow> registry_view t (snd (get_servers now s)) = registry_view t s"
  by (simp add: get_servers_def prod.case_eq_if registry_view_def [abs_def] fetch_keys_abs_later
      fetch_keys_result)

lemma serve_listing:
  "route_of req = RouteServers \<Longrightarrow>
   serve rid req b s =
     Some (s\<lparr>sys_reg := snd (get_servers (sys_clock s) (sys_reg s)),
             sys_log := sys_log s @ [Listed (fst (get_servers (sys_clock s) (sys_reg s)))]\<rparr>)"
  by (simp add: serve_def prod.case_eq_if)

section \<open>Properties of the served requests\<close>

text \<open>
  C12. An announcement whose body is not a JSON object (no JSON body, malformed
  JSON, a JSON primitive or an array) is answered 400, by the body parser or by the
  handler's guard, and changes nothing but the log: no record, no probe.
\<close>

theorem announce_non_object_body_rejected:
  assumes "route_of req = RouteAnnounce" and "\<forall>kvs. b \<noteq> BodyParsed (JObj kvs)"
    and "rid \<notin> fst ` set (sys_inflight s)"
  shows "\<exists>resp. serve rid req b s = Some (s\<lparr>sys_log := sys_log s @ [Responded rid resp]\<rparr>) \<and>
                resp_status resp = 400"
proof (cases "parse_json_body b")
  case (Inl resp)
  then have "resp = resp_parse_error"
    by (auto simp: parse_json_body_def split: body_in.splits if_splits)
  with Inl assms(1) show ?thesis
    by (intro exI[of _ resp_parse_error]) (simp add: serve_def resp_parse_error_def)
next
  case (Inr j)
  then have "\<not> valid_payload j" using assms(2) by (rule parse_json_body_object)
  with Inr assms(1,3) show ?thesis
    by (intro exI[of _ resp_bad_request]) (simp add: serve_def announce_begin_invalid resp_bad_request_def)
qed

theorem announce_non_object_body_rejected_witness:
  "\<exists>resp. serve 1 \<lparr>rq_method = ''POST'', rq_path = ''/prsnt/announce'', rq_origin = None\<rparr>
             (BodyParsed (JStr ''hello'')) (sys_init None 0) =
           Some ((sys_init None 0)\<lparr>sys_log := sys_log (sys_init None 0) @ [Responded 1 resp]\<rparr>) \<and>
         resp_status resp = 400"
  by (rule announce_non_object_body_rejected) (simp_all add: route_of_def path_matches_def
      ascii_lower_def sys_init_def)

text \<open>
  C25. Serving a listing changes nothing a reader can observe, now or later: the
  registry's view at every time from the current one on, the heap and the probes
  in flight are unchanged (the stale entries it drops were unobservable already).
\<close>

theorem listing_request_read_only:
  assumes "route_of req = RouteServers" and "serve rid req b s = Some s'" and "sys_clock s \<le> t"
  shows "registry_view t (sys_reg s') = registry_view t (sys_reg s) \<and>
         prsnt_heap (sys_reg s') = prsnt_heap (sys_reg s) \<and> sys_inflight s' = sys_inflight s \<and>
         sys_clock s' = sys_clock s"
  using assms by (auto simp: serve_listing get_servers_view_later get_servers_frame)

theorem listing_request_read_only_witness:
  "registry_view 5 (sys_reg (the (serve 1 \<lparr>rq_method = ''HEAD'', rq_path = ''/prsnt/Servers.json/'', rq_origin = None\<rparr>
       BodyAbsent (sys_init None 0)))) = registry_view 5 (sys_reg (sys_init None 0)) \<and>
   prsnt_heap (sys_reg (the (serve 1 \<lparr>rq_method = ''HEAD'', rq_path = ''/prsnt/Servers.json/'', rq_origin = None\<rparr>
       BodyAbsent (sys_init None 0)))) = prsnt_heap (sys_reg (sys_init None 0)) \<and>
   sys_inflight (the (serve 1 \<lparr>rq_method = ''HEAD'', rq_path = ''/prsnt/Servers.json/'', rq_origin = None\<rparr>
       BodyAbsent (sys_init None 0))) = sys_inflight (sys_init None 0) \<and>
   sys_clock (the (serve 1 \<lparr>rq_method = ''HEAD'', rq_path = ''/prsnt/Servers.json/'', rq_origin = None\<rparr>
       BodyAbsent (sys_init None 0))) = sys_clock (sys_init None 0)"
proof -
  have r: "route_of \<lparr>rq_method = ''HEAD'', rq_path = ''/prsnt/Servers.json/'', rq_origin = None\<rparr> = RouteServers"
    by (simp add: route_of_def path_matches_def ascii_lower_def)
  have "serve 1 \<lparr>rq_method = ''HEAD'', rq_path = ''/prsnt/Servers.json/'', rq_origin = None\<rparr> BodyAbsent
          (sys_init None 0) =
        Some (the (serve 1 \<lparr>rq_method = ''HEAD'', rq_path = ''/prsnt/Servers.json/'', rq_origin = None\<rparr>
          BodyAbsent (sys_init None 0)))"
    using r by (simp add: serve_listing)
  from listing_request_read_only[OF r this] show ?thesis by (simp add: sys_init_def)
qed

end
